theory Spec2Isabelle
  imports Main
begin

section \<open>Values thrown by JavaScript code\<close>

text \<open>
  A JavaScript \<^verbatim>\<open>throw\<close> or a rejected promise carries any value.  The handlers below
  look at a thrown value in four ways only: \<^verbatim>\<open>error instanceof StagehandError\<close>,
  \<^verbatim>\<open>error instanceof Error ? error.message : String(error)\<close>,
  \<^verbatim>\<open>error?.message ?? String(error)\<close>, and a bare \<^verbatim>\<open>error.message\<close> inside a
  template literal.  Six kinds of value tell these apart:
  a \<^verbatim>\<open>StagehandError\<close> with its message; any other \<^verbatim>\<open>Error\<close> with its message;
  \<^verbatim>\<open>undefined\<close> or \<^verbatim>\<open>null\<close> (with what \<^verbatim>\<open>String\<close> makes of it); any other
  value that has no \<^verbatim>\<open>message\<close> and that \<^verbatim>\<open>String\<close> renders (with the rendering);
  a value that is not an \<^verbatim>\<open>Error\<close> and has a \<^verbatim>\<open>message\<close> (with the message, and
  with its rendering if \<^verbatim>\<open>String\<close> renders it); and a value that has no \<^verbatim>\<open>message\<close>
  and that \<^verbatim>\<open>String\<close> cannot render, such as \<^verbatim>\<open>Object.create(null)\<close>.  A
  \<^verbatim>\<open>message\<close> that is \<^verbatim>\<open>undefined\<close> or \<^verbatim>\<open>null\<close> counts as none.
\<close>

datatype thrown =
    StagehandError string
  | JsError string
  | Nullish string
  | NonError string
  | Messaged string "string option"
  | Unprintable

text \<open>\<^verbatim>\<open>String\<close> throws a \<^verbatim>\<open>TypeError\<close> on a value it cannot render (the text is
  V8's).\<close>

definition cannotConvert :: thrown where
  "cannotConvert = JsError ''Cannot convert object to primitive value''"

text \<open>\<^verbatim>\<open>error instanceof Error ? error.message : String(error)\<close> gives a string or
  throws.\<close>

fun errorMessage :: "thrown \<Rightarrow> thrown + string" where
  "errorMessage (StagehandError m) = Inr m"
| "errorMessage (JsError m) = Inr m"
| "errorMessage (Nullish s) = Inr s"
| "errorMessage (NonError s) = Inr s"
| "errorMessage (Messaged m (Some s)) = Inr s"
| "errorMessage (Messaged m None) = Inl cannotConvert"
| "errorMessage Unprintable = Inl cannotConvert"

text \<open>\<^verbatim>\<open>error?.message ?? String(error)\<close> gives a string or throws.\<close>

fun messageOrString :: "thrown \<Rightarrow> thrown + string" where
  "messageOrString (StagehandError m) = Inr m"
| "messageOrString (JsError m) = Inr m"
| "messageOrString (Nullish s) = Inr s"
| "messageOrString (NonError s) = Inr s"
| "messageOrString (Messaged m rendering) = Inr m"
| "messageOrString Unprintable = Inl cannotConvert"

text \<open>\<^verbatim>\<open>`...${error.message}`\<close>: reading a property of \<^verbatim>\<open>undefined\<close> or \<^verbatim>\<open>null\<close>
  throws a \<^verbatim>\<open>TypeError\<close> (the text is V8's); on a value without the property the
  template prints \<^verbatim>\<open>undefined\<close>.\<close>

fun readMessage :: "thrown \<Rightarrow> thrown + string" where
  "readMessage (StagehandError m) = Inr m"
| "readMessage (JsError m) = Inr m"
| "readMessage (Nullish s) =
     Inl (JsError (''Cannot read properties of '' @ s @ '' (reading 'message')''))"
| "readMessage (NonError s) = Inr ''undefined''"
| "readMessage (Messaged m rendering) = Inr m"
| "readMessage Unprintable = Inr ''undefined''"


section \<open>Strings and arrays as JavaScript has them\<close>

text \<open>A string is kept as the bytes of its UTF-8 encoding.\<close>

text \<open>\<^verbatim>\<open>Array.prototype.join\<close> on an array of strings.\<close>

fun join :: "string \<Rightarrow> string list \<Rightarrow> string" where
  "join sep [] = []"
| "join sep [x] = x"
| "join sep (x # y # ys) = x @ sep @ join sep (y # ys)"

text \<open>\<^verbatim>\<open>String.prototype.trim\<close> removes the white space and the line terminators of
  ECMAScript from both ends.  Those of one byte are U+0009 to U+000D and U+0020; of two
  bytes, U+00A0 (C2 A0); of three bytes, U+1680 (E1 9A 80), U+2000 to U+200A
  (E2 80 80 to E2 80 8A), U+2028 and U+2029 (E2 80 A8, E2 80 A9), U+202F (E2 80 AF),
  U+205F (E2 81 9F), U+3000 (E3 80 80) and U+FEFF (EF BB BF).\<close>

definition isSpace1 :: "char \<Rightarrow> bool" where
  "isSpace1 a = (a \<in> set [CHR 0x09, CHR 0x0A, CHR 0x0B, CHR 0x0C, CHR 0x0D, CHR 0x20])"

definition isSpace2 :: "char \<Rightarrow> char \<Rightarrow> bool" where
  "isSpace2 a b = (a = CHR 0xC2 \<and> b = CHR 0xA0)"

definition isSpace3 :: "char \<Rightarrow> char \<Rightarrow> char \<Rightarrow> bool" where
  "isSpace3 a b c =
     ((a = CHR 0xE1 \<and> b = CHR 0x9A \<and> c = CHR 0x80)
      \<or> (a = CHR 0xE2 \<and> b = CHR 0x80
          \<and> c \<in> set [CHR 0x80, CHR 0x81, CHR 0x82, CHR 0x83, CHR 0x84, CHR 0x85, CHR 0x86,
                      CHR 0x87, CHR 0x88, CHR 0x89, CHR 0x8A, CHR 0xA8, CHR 0xA9, CHR 0xAF])
      \<or> (a = CHR 0xE2 \<and> b = CHR 0x81 \<and> c = CHR 0x9F)
      \<or> (a = CHR 0xE3 \<and> b = CHR 0x80 \<and> c = CHR 0x80)
      \<or> (a = CHR 0xEF \<and> b = CHR 0xBB \<and> c = CHR 0xBF))"

text \<open>The white space at the start of a string, and at the start of a reversed string
  (the bytes of each character then come last first).\<close>

fun trimStart :: "string \<Rightarrow> string" where
  "trimStart (a # b # c # s) =
     (if isSpace1 a then trimStart (b # c # s)
      else if isSpace2 a b then trimStart (c # s)
      else if isSpace3 a b c then trimStart s
      else a # b # c # s)"
| "trimStart [a, b] =
     (if isSpace1 a then trimStart [b] else if isSpace2 a b then [] else [a, b])"
| "trimStart [a] = (if isSpace1 a then [] else [a])"
| "trimStart [] = []"

fun trimStartReversed :: "string \<Rightarrow> string" where
  "trimStartReversed (c # b # a # s) =
     (if isSpace1 c then trimStartReversed (b # a # s)
      else if isSpace2 b c then trimStartReversed (a # s)
      else if isSpace3 a b c then trimStartReversed s
      else c # b # a # s)"
| "trimStartReversed [b, a] =
     (if isSpace1 b then trimStartReversed [a] else if isSpace2 a b then [] else [b, a])"
| "trimStartReversed [a] = (if isSpace1 a then [] else [a])"
| "trimStartReversed [] = []"

definition trim :: "string \<Rightarrow> string" where
  "trim s = rev (trimStartReversed (rev (trimStart s)))"

text \<open>\<^verbatim>\<open>a || b\<close> on strings: the empty string is falsy.\<close>

definition orElse :: "string \<Rightarrow> string \<Rightarrow> string" where
  "orElse a b = (if a = [] then b else a)"

text \<open>\<^verbatim>\<open>xs.slice(-n)\<close> for \<open>n \<ge> 0\<close>: the last \<open>n\<close> elements, all of them when
  there are fewer; \<^verbatim>\<open>slice(-0)\<close> is \<^verbatim>\<open>slice(0)\<close>, the whole array.\<close>

definition sliceLast :: "nat \<Rightarrow> 'a list \<Rightarrow> 'a list" where
  "sliceLast n xs = (if n = 0 then xs else drop (length xs - n) xs)"

text \<open>\<^verbatim>\<open>xs.slice(-1)[0] || ""\<close> on an array of strings.\<close>

definition lastOrEmpty :: "string list \<Rightarrow> string" where
  "lastOrEmpty xs = (case sliceLast 1 xs of [] \<Rightarrow> [] | x # _ \<Rightarrow> x)"

section \<open>The public agent types (types/public/agent.ts)\<close>

text \<open>An \<^verbatim>\<open>AgentAction\<close>: its \<^verbatim>\<open>type\<close> tag, the page URL and time stamp the loop
  stamps on it, and every other field as one opaque string.\<close>

record AgentAction =
  atype :: string
  payload :: string
  pageUrl :: "string option"
  timestamp :: "int option"

record AgentState =
  collectedReasoning :: "string list"
  actions :: "AgentAction list"
  finalMessage :: string
  completed :: bool
  currentPageUrl :: string

record Usage =
  input_tokens :: nat
  output_tokens :: nat
  reasoning_tokens :: nat
  cached_input_tokens :: nat
  inference_time_ms :: int

record AgentResult =
  success :: bool
  message :: string
  resultActions :: "AgentAction list"
  resultCompleted :: bool
  usage :: "Usage option"

record AgentStepUpdate =
  updStepNumber :: nat
  updActions :: "AgentAction list"
  updMessage :: string
  updCompleted :: bool
  updCurrentUrl :: string

text \<open>\<^verbatim>\<open>AgentExecuteOptions\<close>.  \<open>maxSteps\<close> is an optional number, here an optional
  integer.  \<open>onStep\<close> is a callback that only receives updates, so the model records
  whether it was supplied and collects what it is given.  \<open>checkPauseState\<close>, when
  supplied, is asked once per step: \<open>f k\<close> is what the call made in step \<open>k\<close>
  (counted from 0) does, \<open>None\<close> when the promise resolves and \<open>Some e\<close> when it
  rejects with \<open>e\<close>.\<close>

record AgentExecuteOptions =
  instruction :: string
  maxSteps :: "int option"
  onStep :: bool
  checkPauseState :: "(nat \<Rightarrow> thrown option) option"

datatype instructionOrOptions =
    Instruction string
  | Options AgentExecuteOptions

section \<open>Chat messages and responses\<close>

text \<open>What the handler reads of an \<^verbatim>\<open>LLMResponse\<close>.  A tool call's \<^verbatim>\<open>arguments\<close> is a
  JSON string that handler and client give to \<^verbatim>\<open>JSON.parse\<close>; the handler reads two
  properties of the result.  The string is represented by what \<^verbatim>\<open>JSON.parse\<close> makes of
  it: a \<^verbatim>\<open>SyntaxError\<close>, \<^verbatim>\<open>null\<close>, or a value whose \<^verbatim>\<open>taskComplete\<close> is truthy or
  not and whose \<^verbatim>\<open>reasoning\<close> is a string (empty when absent).\<close>

record ToolArgs =
  taskComplete :: bool
  reasoning :: string
  otherArgs :: string

datatype parsed =
    SyntaxError string
  | ParsedNull
  | ParsedValue ToolArgs

record ToolCall =
  functionName :: string
  arguments :: parsed

text \<open>\<^verbatim>\<open>JSON.parse(toolCall.function.arguments)\<close>.\<close>

fun parseArguments :: "parsed \<Rightarrow> thrown + ToolArgs option" where
  "parseArguments (SyntaxError m) = Inl (JsError m)"
| "parseArguments ParsedNull = Inr None"
| "parseArguments (ParsedValue a) = Inr (Some a)"

record LLMUsage =
  prompt_tokens :: nat
  completion_tokens :: nat
  total_tokens :: nat

text \<open>\<open>content\<close> is \<^verbatim>\<open>message?.content || ""\<close> and \<open>tool_calls\<close> is
  \<^verbatim>\<open>message?.tool_calls || []\<close>; \<open>choices\<close> may be empty.\<close>

record Choice =
  content :: string
  tool_calls :: "ToolCall list"

record LLMResponse =
  choices :: "Choice list"
  llmUsage :: "LLMUsage option"

text \<open>A tool's result is opaque, except the one the OAuth loop builds itself for
  \<^verbatim>\<open>close\<close>, \<^verbatim>\<open>{ success: true, reasoning }\<close>.\<close>

datatype toolResult =
    CloseResult string
  | ToolValue string

text \<open>The messages of the OAuth loop.  The content of the follow-up user message is
  \<^verbatim>\<open>toolResults.join("\n")\<close>, each entry a \<^verbatim>\<open>JSON.stringify\<close> of an object; it is
  kept as the list of those objects: \<^verbatim>\<open>{ error: m }\<close>, \<^verbatim>\<open>{ success: true }\<close> or a
  tool's result.\<close>

datatype toolPayload =
    ErrorPayload string
  | SuccessPayload
  | ResultPayload toolResult

datatype role = System | User | Assistant

datatype messageContent =
    Text string
  | ToolResults "toolPayload list"

record ChatMessage =
  msgRole :: role
  msgContent :: messageContent
  msgToolCalls :: "ToolCall list"


section \<open>The OAuth/REST client (llm/CodeAssistClient.ts)\<close>















section \<open>The agent handler (handlers/v3AgentHandler.ts)\<close>

subsection \<open>Collaborators\<close>

text \<open>A tool's \<^verbatim>\<open>execute\<close> receives the parsed arguments (\<open>None\<close> for \<^verbatim>\<open>null\<close>) and
  throws, or returns a result and leaves the active page at some URL.\<close>

datatype toolOutcome =
    ToolThrows thrown
  | ToolReturns toolResult string

type_synonym Tool = "ToolArgs option \<Rightarrow> toolOutcome"

text \<open>A step of the AI SDK, as \<^verbatim>\<open>onStepFinish\<close> receives it.  \<open>toolInput\<close> is \<open>None\<close>
  when it is \<^verbatim>\<open>undefined\<close> or \<^verbatim>\<open>null\<close>.\<close>

record SdkToolCall =
  toolName :: string
  toolInput :: "ToolArgs option"

record StepResult =
  stepText :: string
  toolCalls :: "SdkToolCall list"
  toolResults :: "toolResult list"

record LanguageModelUsage =
  inputTokens :: nat
  outputTokens :: nat
  reasoningTokens :: nat
  cachedInputTokens :: nat

text \<open>Everything the handler does not own.  \<open>oauthMode\<close> is
  \<^verbatim>\<open>llmClient.type === "google-oauth"\<close>.  \<open>allTools name\<close> is the property
  \<^verbatim>\<open>allTools[name]\<close> of the merged tool set, \<open>None\<close> when it is falsy (a name
  that the object only inherits, such as \<^verbatim>\<open>toString\<close>, gives a value that is not a
  tool: calling its \<^verbatim>\<open>execute\<close> throws).
  \<open>mapToolResultToActions\<close> (agent/utils/actionMapping) is taken as it is, a function
  of the tool name, the tool result, the arguments and the reasoning.
  \<open>llmCreateChatCompletion k msgs\<close> is what the client's \<^verbatim>\<open>createChatCompletion\<close>
  does at its \<open>k\<close>-th call of the run (from 0) on the messages \<open>msgs\<close>.
  \<open>sdkStep k\<close> is step \<open>k\<close> of \<^verbatim>\<open>generateText\<close>: the provider call and the tools'
  execution fail, or they give the step's result; \<open>pageUrlAfterStep k\<close> is the URL of the
  active page when the step handler reads it.  \<open>stampTime i\<close> is what \<^verbatim>\<open>Date.now()\<close>
  reads when the action at position \<open>i\<close> of \<^verbatim>\<open>state.actions\<close> is stamped.
  The logger, the metrics sink, the \<open>onStep\<close> callback, \<^verbatim>\<open>mapToolResultToActions\<close>,
  \<^verbatim>\<open>JSON.stringify\<close> of a tool's result and the reads of the active page's URL after
  the preparation are taken to return.\<close>

record HandlerEnv =
  oauthMode :: bool
  hasGetLanguageModel :: bool
  systemInstructions :: "string option"
  initialPage :: "thrown + string"
  allTools :: "string \<Rightarrow> Tool option"
  mapToolResultToActions ::
    "string \<Rightarrow> toolResult option \<Rightarrow> ToolArgs option \<Rightarrow> string option \<Rightarrow> AgentAction list"
  llmCreateChatCompletion :: "nat \<Rightarrow> ChatMessage list \<Rightarrow> thrown + LLMResponse"
  sdkStep :: "nat \<Rightarrow> thrown + StepResult"
  pageUrlAfterStep :: "nat \<Rightarrow> string"
  sdkUsage :: "LanguageModelUsage option"
  startTime :: int
  endTime :: int
  stampTime :: "nat \<Rightarrow> int"

text \<open>The state of one run: the \<^verbatim>\<open>AgentState\<close>, the locals of the loop
  (\<open>stepNumber\<close>, \<open>chatMessages\<close>, \<open>totalUsage\<close>), and what the run did to the outside:
  the updates given to \<open>onStep\<close> and the message lists sent to the model, both in
  order, and the number of model invocations.\<close>

record Run = AgentState +
  stepNumber :: nat
  chatMessages :: "ChatMessage list"
  totalUsage :: LLMUsage
  updates :: "AgentStepUpdate list"
  requests :: "ChatMessage list list"
  modelCalls :: nat

subsection \<open>prepareAgent\<close>

text \<open>\<^verbatim>\<open>options.maxSteps || 20\<close>: \<^verbatim>\<open>undefined\<close> and \<open>0\<close> are falsy.\<close>

definition effectiveMaxSteps :: "AgentExecuteOptions \<Rightarrow> int" where
  "effectiveMaxSteps options =
     (case maxSteps options of None \<Rightarrow> 20 | Some n \<Rightarrow> if n = 0 then 20 else n)"

definition resolveOptions :: "instructionOrOptions \<Rightarrow> AgentExecuteOptions" where
  "resolveOptions io =
     (case io of
        Instruction i \<Rightarrow>
          \<lparr>instruction = i, maxSteps = None, onStep = False, checkPauseState = None\<rparr>
      | Options options \<Rightarrow> options)"

definition defaultPromptHead :: string where
  "defaultPromptHead =
     ''You are a web automation assistant using browser automation tools to accomplish the user's goal.'' @
     [CHR 0x0A] @ [CHR 0x0A] @ ''Your task: ''"

definition defaultPromptTail :: string where
  "defaultPromptTail =
     [CHR 0x0A] @ [CHR 0x0A] @
     ''You have access to various browser automation tools. Use them step by step to complete the task.'' @
     [CHR 0x0A] @ [CHR 0x0A] @ ''IMPORTANT GUIDELINES:'' @ [CHR 0x0A] @
     ''1. Always start by understanding the current page state'' @ [CHR 0x0A] @
     ''2. Use the screenshot tool to verify page state when needed'' @ [CHR 0x0A] @
     ''3. Use appropriate tools for each action'' @ [CHR 0x0A] @
     ''4. When the task is complete, use the '' @ [CHR 0x22] @ ''close'' @ [CHR 0x22] @
     '' tool with taskComplete: true'' @ [CHR 0x0A] @
     ''5. If the task cannot be completed, use '' @ [CHR 0x22] @ ''close'' @ [CHR 0x22] @
     '' with taskComplete: false'' @ [CHR 0x0A] @ [CHR 0x0A] @ ''TOOLS OVERVIEW:'' @
     [CHR 0x0A] @
     ''- screenshot: Take a PNG screenshot for quick visual context (use sparingly)'' @
     [CHR 0x0A] @
     ''- ariaTree: Get an accessibility (ARIA) hybrid tree for full page context'' @
     [CHR 0x0A] @ ''- act: Perform a specific atomic action (click, type, etc.)'' @
     [CHR 0x0A] @ ''- extract: Extract structured data'' @ [CHR 0x0A] @
     ''- goto: Navigate to a URL'' @ [CHR 0x0A] @
     ''- wait/navback/refresh: Control timing and navigation'' @ [CHR 0x0A] @
     ''- scroll: Scroll the page x pixels up or down'' @ [CHR 0x0A] @ [CHR 0x0A] @
     ''STRATEGY:'' @ [CHR 0x0A] @
     ''- Prefer ariaTree to understand the page before acting; use screenshot for confirmation.'' @
     [CHR 0x0A] @ ''- Keep actions atomic and verify outcomes before proceeding.''"

definition buildSystemPrompt :: "string \<Rightarrow> string option \<Rightarrow> string" where
  "buildSystemPrompt executionInstruction systemInstr =
     (let byDefault = defaultPromptHead @ executionInstruction @ defaultPromptTail
      in case systemInstr of
           None \<Rightarrow> byDefault
         | Some si \<Rightarrow>
             if si \<noteq> [] then
               si @ [CHR 0x0A] @ ''Your current goal: '' @ executionInstruction @
               '' when the task is complete, use the '' @ [CHR 0x22] @ ''close'' @ [CHR 0x22] @
               '' tool with taskComplete: true''
             else byDefault)"

record AgentContext =
  ctxOptions :: AgentExecuteOptions
  ctxMaxSteps :: int
  systemPrompt :: string
  messages :: "ChatMessage list"
  initialPageUrl :: string

text \<open>The class \<^verbatim>\<open>MissingLLMConfigurationError\<close> is declared elsewhere (sdkErrors);
  only that it is thrown matters here.\<close>

definition missingLLMConfigurationError :: thrown where
  "missingLLMConfigurationError = StagehandError ''MissingLLMConfigurationError''"

definition prepareAgent :: "HandlerEnv \<Rightarrow> instructionOrOptions \<Rightarrow> thrown + AgentContext" where
  "prepareAgent env io =
     (let options = resolveOptions io;
          maxSteps' = effectiveMaxSteps options;
          prompt = buildSystemPrompt (instruction options) (systemInstructions env);
          msgs = [\<lparr>msgRole = User, msgContent = Text (instruction options), msgToolCalls = []\<rparr>]
      in if \<not> oauthMode env \<and> \<not> hasGetLanguageModel env then Inl missingLLMConfigurationError
         else (case initialPage env of
                 Inl e \<Rightarrow> Inl e
               | Inr url \<Rightarrow>
                   Inr \<lparr>ctxOptions = options, ctxMaxSteps = maxSteps', systemPrompt = prompt,
                        messages = msgs, initialPageUrl = url\<rparr>))"

subsection \<open>Shared pieces of both loops\<close>

text \<open>\<^verbatim>\<open>action.pageUrl = state.currentPageUrl; action.timestamp = Date.now();
  state.actions.push(action)\<close> for each mapped action.\<close>

fun stamp :: "HandlerEnv \<Rightarrow> string \<Rightarrow> nat \<Rightarrow> AgentAction list \<Rightarrow> AgentAction list" where
  "stamp env url i [] = []"
| "stamp env url i (a # as) =
     a\<lparr>pageUrl := Some url, timestamp := Some (stampTime env i)\<rparr> # stamp env url (Suc i) as"

definition pushActions :: "HandlerEnv \<Rightarrow> AgentAction list \<Rightarrow> Run \<Rightarrow> Run" where
  "pushActions env mapped r =
     r\<lparr>actions := actions r @ stamp env (currentPageUrl r) (length (actions r)) mapped\<rparr>"

definition emit :: "AgentExecuteOptions \<Rightarrow> AgentStepUpdate \<Rightarrow> Run \<Rightarrow> Run" where
  "emit options u r = (if onStep options then r\<lparr>updates := updates r @ [u]\<rparr> else r)"

definition startingUpdate :: "Run \<Rightarrow> AgentStepUpdate" where
  "startingUpdate r =
     \<lparr>updStepNumber = stepNumber r, updActions = [], updMessage = [], updCompleted = False,
      updCurrentUrl = currentPageUrl r\<rparr>"

text \<open>The final message of a \<^verbatim>\<open>close\<close> call with a truthy \<^verbatim>\<open>taskComplete\<close>.\<close>

definition closeMessage :: "string list \<Rightarrow> string \<Rightarrow> string" where
  "closeMessage collected closeReasoning =
     (let allReasoning = join '' '' collected
      in if closeReasoning \<noteq> [] then trim (allReasoning @ '' '' @ closeReasoning)
         else orElse allReasoning ''Task completed successfully'')"

definition initialRun :: "string \<Rightarrow> Run" where
  "initialRun url =
     \<lparr>collectedReasoning = [], actions = [], finalMessage = [], completed = False,
      currentPageUrl = url, stepNumber = 0, chatMessages = [],
      totalUsage = \<lparr>prompt_tokens = 0, completion_tokens = 0, total_tokens = 0\<rparr>,
      updates = [], requests = [], modelCalls = 0\<rparr>"

text \<open>The optional pause check of a step, with the log line written when it
  rejects: \<open>None\<close> when there is no callback or it resolves, otherwise what reading
  \<^verbatim>\<open>error.message\<close> for the log line gives, next to the rejection itself.\<close>

definition pauseCheck :: "AgentExecuteOptions \<Rightarrow> nat \<Rightarrow> (thrown \<times> (thrown + string)) option" where
  "pauseCheck options k =
     (case checkPauseState options of
        None \<Rightarrow> None
      | Some check \<Rightarrow> (case check k of None \<Rightarrow> None | Some e \<Rightarrow> Some (e, readMessage e)))"

definition reasoningOf :: "string \<Rightarrow> string option" where
  "reasoningOf t = (if t = [] then None else Some t)"

definition completedUpdate :: "nat \<Rightarrow> string \<Rightarrow> Run \<Rightarrow> AgentStepUpdate" where
  "completedUpdate n t r =
     \<lparr>updStepNumber = stepNumber r, updActions = sliceLast n (actions r),
      updMessage = orElse t (lastOrEmpty (collectedReasoning r)), updCompleted = True,
      updCurrentUrl = currentPageUrl r\<rparr>"

subsection \<open>executeWithCodeAssist: the manual loop of the OAuth backend\<close>

text \<open>The \<^verbatim>\<open>close\<close> branch.  \<^verbatim>\<open>toolArgs?.taskComplete\<close> tolerates \<^verbatim>\<open>null\<close>; the
  later \<^verbatim>\<open>toolArgs.reasoning\<close> does not, and throws after the state was changed.\<close>

definition closeToolCall ::
  "HandlerEnv \<Rightarrow> AgentExecuteOptions \<Rightarrow> string \<Rightarrow> ToolArgs option \<Rightarrow> Run \<Rightarrow> Run \<times> thrown option"
where
  "closeToolCall env options textContent toolArgs r =
     (let r1 = r\<lparr>completed := True\<rparr>;
          r2 = (case toolArgs of
                  Some a \<Rightarrow>
                    if taskComplete a
                    then r1\<lparr>finalMessage := closeMessage (collectedReasoning r1) (reasoning a)\<rparr>
                    else r1\<lparr>finalMessage := ''Task could not be completed''\<rparr>
                | None \<Rightarrow> r1\<lparr>finalMessage := ''Task could not be completed''\<rparr>)
      in case toolArgs of
           None \<Rightarrow> (r2, Some (JsError ''Cannot read properties of null (reading 'reasoning')''))
         | Some a \<Rightarrow>
             (let mapped = mapToolResultToActions env ''close'' (Some (CloseResult (reasoning a)))
                             toolArgs (reasoningOf textContent);
                  r3 = pushActions env mapped r2
              in (emit options (completedUpdate (length mapped) textContent r3) r3, None)))"

text \<open>The loop over the tool calls of one step, with the \<^verbatim>\<open>toolResults\<close> array.  It
  ends at the end of the list, at \<^verbatim>\<open>close\<close> (\<^verbatim>\<open>break\<close>), or with a thrown value:
  parsing the arguments is outside the \<^verbatim>\<open>try\<close>, and the \<^verbatim>\<open>catch\<close> of a tool that
  throws begins with \<^verbatim>\<open>error instanceof Error ? error.message : String(error)\<close>, which
  may throw itself.\<close>

fun runToolCalls ::
  "HandlerEnv \<Rightarrow> AgentExecuteOptions \<Rightarrow> string \<Rightarrow> ToolCall list \<Rightarrow> Run \<Rightarrow> toolPayload list
     \<Rightarrow> Run \<times> toolPayload list \<times> thrown option"
where
  "runToolCalls env options textContent [] r results = (r, results, None)"
| "runToolCalls env options textContent (toolCall # rest) r results =
     (case parseArguments (arguments toolCall) of
        Inl e \<Rightarrow> (r, results, Some e)
      | Inr toolArgs \<Rightarrow>
          if functionName toolCall = ''close'' then
            (case closeToolCall env options textContent toolArgs r of
               (r', Some e) \<Rightarrow> (r', results, Some e)
             | (r', None) \<Rightarrow> (r', results @ [SuccessPayload], None))
          else
            (case allTools env (functionName toolCall) of
               None \<Rightarrow>
                 runToolCalls env options textContent rest r
                   (results @ [ErrorPayload (''Unknown tool: '' @ functionName toolCall)])
             | Some tool \<Rightarrow>
                 (case tool toolArgs of
                    ToolThrows e \<Rightarrow>
                      (case errorMessage e of
                         Inl typeError \<Rightarrow> (r, results, Some typeError)
                       | Inr m \<Rightarrow>
                           runToolCalls env options textContent rest r
                             (results @ [ErrorPayload m]))
                  | ToolReturns toolResult url \<Rightarrow>
                      (let mapped = mapToolResultToActions env (functionName toolCall)
                                      (Some toolResult) toolArgs (reasoningOf textContent);
                           r1 = pushActions env mapped r;
                           r2 = r1\<lparr>currentPageUrl := url\<rparr>;
                           r3 = emit options (completedUpdate (length mapped) textContent r2) r2
                       in runToolCalls env options textContent rest r3
                            (results @ [ResultPayload toolResult])))))"

text \<open>One iteration of the \<^verbatim>\<open>for\<close> loop ends by going on to the next one, by
  \<^verbatim>\<open>break\<close>, or by a thrown value.\<close>

datatype iteration =
    Continue Run
  | Break Run
  | Throw Run thrown

definition addUsage :: "LLMUsage option \<Rightarrow> LLMUsage \<Rightarrow> LLMUsage" where
  "addUsage u acc =
     (case u of
        None \<Rightarrow> acc
      | Some v \<Rightarrow>
          \<lparr>prompt_tokens = prompt_tokens acc + prompt_tokens v,
           completion_tokens = completion_tokens acc + completion_tokens v,
           total_tokens = total_tokens acc + total_tokens v\<rparr>)"

definition codeAssistStep ::
  "HandlerEnv \<Rightarrow> AgentExecuteOptions \<Rightarrow> nat \<Rightarrow> Run \<Rightarrow> iteration"
where
  "codeAssistStep env options step r =
     (case pauseCheck options step of
        Some (e, Inl typeError) \<Rightarrow> Throw r typeError
      | Some (e, Inr m) \<Rightarrow> Break r
      | None \<Rightarrow>
          (let r1 = r\<lparr>stepNumber := Suc (stepNumber r)\<rparr>;
               r2 = emit options (startingUpdate r1) r1;
               r3 = r2\<lparr>requests := requests r2 @ [chatMessages r2],
                       modelCalls := Suc (modelCalls r2)\<rparr>
           in case llmCreateChatCompletion env step (chatMessages r2) of
                Inl e \<Rightarrow> Throw r3 e
              | Inr response \<Rightarrow>
                  (let r4 = r3\<lparr>totalUsage := addUsage (llmUsage response) (totalUsage r3)\<rparr>
                   in case choices response of
                        [] \<Rightarrow> Break r4
                      | choice # others \<Rightarrow>
                          (let calls = tool_calls choice;
                               textContent = content choice;
                               r5 = (if textContent \<noteq> []
                                     then r4\<lparr>collectedReasoning :=
                                              collectedReasoning r4 @ [textContent]\<rparr>
                                     else r4)
                           in if calls = [] then Break r5
                              else
                                (let r6 = r5\<lparr>chatMessages := chatMessages r5 @
                                            [\<lparr>msgRole = Assistant, msgContent = Text textContent,
                                              msgToolCalls = calls\<rparr>]\<rparr>
                                 in case runToolCalls env options textContent calls r6 [] of
                                      (r7, results, Some e) \<Rightarrow> Throw r7 e
                                    | (r7, results, None) \<Rightarrow>
                                        (let r8 = r7\<lparr>chatMessages := chatMessages r7 @
                                                    [\<lparr>msgRole = User,
                                                      msgContent = ToolResults results,
                                                      msgToolCalls = []\<rparr>]\<rparr>
                                         in if completed r8 then Break r8 else Continue r8))))))"

text \<open>\<^verbatim>\<open>for (let step = 0; step < maxSteps && !state.completed; step++)\<close>; the second
  component is the value thrown out of the loop, if any.\<close>

function codeAssistLoop ::
  "HandlerEnv \<Rightarrow> AgentExecuteOptions \<Rightarrow> int \<Rightarrow> nat \<Rightarrow> Run \<Rightarrow> Run \<times> thrown option"
where
  "codeAssistLoop env options maxSteps' step r =
     (if int step < maxSteps' \<and> \<not> completed r then
        (case codeAssistStep env options step r of
           Continue r' \<Rightarrow> codeAssistLoop env options maxSteps' (Suc step) r'
         | Break r' \<Rightarrow> (r', None)
         | Throw r' e \<Rightarrow> (r', Some e))
      else (r, None))"
  by pat_completeness auto
termination
  by (relation "measure (\<lambda>(env, options, maxSteps', step, r). nat (maxSteps' - int step))") auto

declare codeAssistLoop.simps [simp del]

definition executeWithCodeAssist ::
  "HandlerEnv \<Rightarrow> AgentExecuteOptions \<Rightarrow> Run \<Rightarrow> string \<Rightarrow> ChatMessage list \<Rightarrow> int
     \<Rightarrow> Run \<times> (thrown + AgentResult)"
where
  "executeWithCodeAssist env options r prompt msgs maxSteps' =
     (let r0 = r\<lparr>chatMessages :=
                  \<lparr>msgRole = System, msgContent = Text prompt, msgToolCalls = []\<rparr> # msgs\<rparr>
      in case codeAssistLoop env options maxSteps' 0 r0 of
           (r1, Some e) \<Rightarrow> (r1, Inl e)
         | (r1, None) \<Rightarrow>
             (let r2 = (if finalMessage r1 = []
                        then r1\<lparr>finalMessage :=
                               orElse (trim (join '' '' (collectedReasoning r1)))
                                 ''Task execution completed''\<rparr>
                        else r1)
              in (r2,
                  Inr \<lparr>success = completed r2, message = finalMessage r2,
                       resultActions = actions r2, resultCompleted = completed r2,
                       usage = Some \<lparr>input_tokens = prompt_tokens (totalUsage r2),
                                     output_tokens = completion_tokens (totalUsage r2),
                                     reasoning_tokens = 0, cached_input_tokens = 0,
                                     inference_time_ms = endTime env - startTime env\<rparr>\<rparr>)))"


subsection \<open>createStepHandler and handleStop: the AI SDK backend\<close>

text \<open>The \<^verbatim>\<open>for\<close> loop over \<^verbatim>\<open>event.toolCalls\<close>; \<open>i\<close> is the index, and
  \<^verbatim>\<open>event.toolResults?.[i]\<close> is \<^verbatim>\<open>undefined\<close> out of range.  Each call first
  collects the step's text and, for \<^verbatim>\<open>close\<close>, marks the state completed; then its
  result is mapped to actions.\<close>

definition toolResultAt :: "StepResult \<Rightarrow> nat \<Rightarrow> toolResult option" where
  "toolResultAt event i =
     (if i < length (toolResults event) then Some (toolResults event ! i) else None)"

definition collectAndClose :: "StepResult \<Rightarrow> SdkToolCall \<Rightarrow> Run \<Rightarrow> Run" where
  "collectAndClose event toolCall r =
     (let args = toolInput toolCall;
          r1 = (if stepText event \<noteq> []
                then r\<lparr>collectedReasoning := collectedReasoning r @ [stepText event]\<rparr>
                else r)
      in if toolName toolCall = ''close'' then
           (let rc = r1\<lparr>completed := True\<rparr>
            in case args of
                 Some a \<Rightarrow>
                   if taskComplete a
                   then rc\<lparr>finalMessage := closeMessage (collectedReasoning rc) (reasoning a)\<rparr>
                   else rc
               | None \<Rightarrow> rc)
         else r1)"

fun handleToolCalls :: "HandlerEnv \<Rightarrow> StepResult \<Rightarrow> nat \<Rightarrow> SdkToolCall list \<Rightarrow> Run \<Rightarrow> Run" where
  "handleToolCalls env event i [] r = r"
| "handleToolCalls env event i (toolCall # rest) r =
     (let r2 = collectAndClose event toolCall r;
          mapped = mapToolResultToActions env (toolName toolCall) (toolResultAt event i)
                     (toolInput toolCall) (reasoningOf (stepText event))
      in handleToolCalls env event (Suc i) rest (pushActions env mapped r2))"

text \<open>The handler given to \<^verbatim>\<open>onStepFinish\<close>.  Its counter \<^verbatim>\<open>stepNumber\<close> lives in the
  run; the pause check of the handler's \<open>k\<close>-th call (from 0) is check \<open>k\<close>.  When
  the check rejects, the handler logs \<^verbatim>\<open>error.message\<close> and throws the rejection
  again; the second component is the value thrown, if any.\<close>

definition stepHandler ::
  "HandlerEnv \<Rightarrow> AgentExecuteOptions \<Rightarrow> StepResult \<Rightarrow> Run \<Rightarrow> Run \<times> thrown option"
where
  "stepHandler env options event r =
     (let k = stepNumber r;
          r1 = r\<lparr>stepNumber := Suc k\<rparr>;
          r2 = emit options (startingUpdate r1) r1
      in case pauseCheck options k of
           Some (e, Inl typeError) \<Rightarrow> (r2, Some typeError)
         | Some (e, Inr m) \<Rightarrow> (r2, Some e)
         | None \<Rightarrow>
             if toolCalls event \<noteq> [] then
               (let r3 = handleToolCalls env event 0 (toolCalls event) r2;
                    r4 = r3\<lparr>currentPageUrl := pageUrlAfterStep env k\<rparr>
                in (emit options
                      (completedUpdate (length (toolCalls event)) (stepText event) r4) r4,
                    None))
             else (r2, None))"

text \<open>Modelled from the spec: \<^verbatim>\<open>stepCountIs\<close> and \<^verbatim>\<open>generateText\<close> belong to the AI SDK
  and are not under src/.  The spec has the loop run "until either \<^verbatim>\<open>close\<close> is called
  or a configured maximum step count is reached" and has the backend delegate "step
  iteration and stop-predicate evaluation" to the client's "iterate-until-stop
  mechanism", where the "step callback fires once per internal step": each step is one
  model invocation, then the step callback, then the stop predicate on the steps so
  far.  A step without tool calls ends the iteration, as it does in the OAuth loop (the
  spec has both backends implement the same state machine), and what the provider or
  the callback throws ends the call.\<close>

definition stepCountIs :: "int \<Rightarrow> StepResult list \<Rightarrow> bool" where
  "stepCountIs n steps = (int (length steps) = n)"

text \<open>\<^verbatim>\<open>handleStop\<close>, from the source.\<close>

definition handleStop :: "StepResult list \<Rightarrow> int \<Rightarrow> bool" where
  "handleStop steps maxSteps' =
     (if steps \<noteq> [] \<and> list_ex (\<lambda>tc. toolName tc = ''close'') (toolCalls (last steps))
      then True
      else stepCountIs maxSteps' steps)"

text \<open>Modelled from the spec: \<^verbatim>\<open>generateText\<close>, as described above.  The result is
  \<open>None\<close> when the iteration never ends, otherwise the run and either the value
  thrown or the text of the last step.\<close>

partial_function (option) generateText ::
  "HandlerEnv \<Rightarrow> AgentExecuteOptions \<Rightarrow> int \<Rightarrow> StepResult list \<Rightarrow> Run
     \<Rightarrow> (Run \<times> (thrown + string)) option"
where
  "generateText env options maxSteps' steps r =
     (case sdkStep env (length steps) of
        Inl e \<Rightarrow> Some (r\<lparr>modelCalls := Suc (modelCalls r)\<rparr>, Inl e)
      | Inr event \<Rightarrow>
          (case stepHandler env options event (r\<lparr>modelCalls := Suc (modelCalls r)\<rparr>) of
             (r', Some e) \<Rightarrow> Some (r', Inl e)
           | (r', None) \<Rightarrow>
               if toolCalls event = [] \<or> handleStop (steps @ [event]) maxSteps'
               then Some (r', Inr (stepText event))
               else generateText env options maxSteps' (steps @ [event]) r'))"

declare generateText.simps [code]

definition consolidateMetricsAndResult ::
  "HandlerEnv \<Rightarrow> Run \<Rightarrow> string \<Rightarrow> LanguageModelUsage option \<Rightarrow> Run \<times> AgentResult"
where
  "consolidateMetricsAndResult env r resultText resultUsage =
     (let r1 = (if finalMessage r = []
                then r\<lparr>finalMessage :=
                       orElse (trim (join '' '' (collectedReasoning r))) resultText\<rparr>
                else r)
      in (r1,
          \<lparr>success = completed r1,
           message = orElse (finalMessage r1) ''Task execution completed'',
           resultActions = actions r1, resultCompleted = completed r1,
           usage = (case resultUsage of
                      None \<Rightarrow> None
                    | Some u \<Rightarrow>
                        Some \<lparr>input_tokens = inputTokens u, output_tokens = outputTokens u,
                              reasoning_tokens = reasoningTokens u,
                              cached_input_tokens = cachedInputTokens u,
                              inference_time_ms = endTime env - startTime env\<rparr>)\<rparr>))"

subsection \<open>execute\<close>

text \<open>The \<^verbatim>\<open>catch\<close> of \<^verbatim>\<open>execute\<close> begins with
  \<^verbatim>\<open>error?.message ?? String(error)\<close>: it throws, or it returns the result of a
  failure.\<close>

definition catchBlock :: "Run \<Rightarrow> thrown \<Rightarrow> thrown + AgentResult" where
  "catchBlock r e =
     (case messageOrString e of
        Inl typeError \<Rightarrow> Inl typeError
      | Inr m \<Rightarrow>
          Inr \<lparr>success = False, message = ''Failed to execute task: '' @ m,
               resultActions = actions r, resultCompleted = False, usage = None\<rparr>)"

text \<open>The \<^verbatim>\<open>try\<close> block of \<^verbatim>\<open>execute\<close>: the run of one of the two backends.  \<open>None\<close>
  when it never ends, otherwise the final run and either the value thrown out of the
  block or the result it returns.\<close>

definition executeTry :: "HandlerEnv \<Rightarrow> AgentContext \<Rightarrow> (Run \<times> (thrown + AgentResult)) option" where
  "executeTry env ctx =
     (let r0 = initialRun (initialPageUrl ctx)
      in if oauthMode env then
           Some (executeWithCodeAssist env (ctxOptions ctx) r0 (systemPrompt ctx) (messages ctx)
                   (ctxMaxSteps ctx))
         else
           (case generateText env (ctxOptions ctx) (ctxMaxSteps ctx) [] r0 of
              None \<Rightarrow> None
            | Some (r, Inl e) \<Rightarrow> Some (r, Inl e)
            | Some (r, Inr resultText) \<Rightarrow>
                (case consolidateMetricsAndResult env r resultText (sdkUsage env) of
                   (r1, result) \<Rightarrow> Some (r1, Inr result))))"

text \<open>\<^verbatim>\<open>execute\<close> returns \<open>None\<close> when it never returns, \<open>Some (Inl e)\<close> when \<open>e\<close>
  escapes it (\<^verbatim>\<open>prepareAgent\<close> is awaited before the \<^verbatim>\<open>try\<close>, and the \<^verbatim>\<open>catch\<close>
  may throw), and otherwise the final run with the \<^verbatim>\<open>AgentResult\<close>.\<close>

definition execute ::
  "HandlerEnv \<Rightarrow> instructionOrOptions \<Rightarrow> (thrown + Run \<times> AgentResult) option"
where
  "execute env io =
     (case prepareAgent env io of
        Inl e \<Rightarrow> Some (Inl e)
      | Inr ctx \<Rightarrow>
          (case executeTry env ctx of
             None \<Rightarrow> None
           | Some (r, Inr result) \<Rightarrow> Some (Inr (r, result))
           | Some (r, Inl e) \<Rightarrow>
               (case catchBlock r e of
                  Inl typeError \<Rightarrow> Some (Inl typeError)
                | Inr result \<Rightarrow> Some (Inr (r, result)))))"

section \<open>The orchestrator: V3.agent\<close>

text \<open>The cache (\<^verbatim>\<open>AgentCache\<close>), the remote API client, the computer-use handler and
  the page utilities are collaborators of \<^verbatim>\<open>V3.agent\<close>; a cache context and a replay
  step are opaque.  \<open>collaborators\<close> is what \<^verbatim>\<open>resolveTools\<close>, \<^verbatim>\<open>resolveLlmClient\<close>,
  \<^verbatim>\<open>normalizeToV3Page\<close>, \<^verbatim>\<open>awaitActivePage\<close> or \<^verbatim>\<open>prepareContext\<close> throw during the
  set-up, if anything; \<open>recorded\<close> is what \<^verbatim>\<open>endRecording\<close> returns; \<open>store\<close> is what
  \<^verbatim>\<open>agentCache.store\<close> throws, if anything.  The tool-based handler is the
  \<^verbatim>\<open>V3AgentHandler\<close> above, on its own environment.\<close>

type_synonym AgentCacheContext = string
type_synonym AgentReplayStep = string

record AgentConfig =
  cua :: bool
  stream :: bool
  integrations :: bool
  tools :: bool

record V3Env =
  experimental :: bool
  apiClient :: bool
  isCuaModel :: bool
  collaborators :: "thrown option"
  shouldAttemptCache :: bool
  prepareContext :: "AgentCacheContext option"
  tryReplay :: "AgentCacheContext \<Rightarrow> thrown + AgentResult option"
  tryReplayAsStream :: "AgentCacheContext \<Rightarrow> thrown + bool"
  recorded :: "AgentReplayStep list"
  store :: "thrown option"
  apiAgentExecute :: "thrown + AgentResult"
  cuaHandlerExecute :: "thrown + AgentResult"
  handlerStream :: "thrown option"
  handlerEnv :: HandlerEnv

text \<open>What \<^verbatim>\<open>execute\<close> does to its collaborators, in order.  \<open>HandlerExecute n\<close> is a
  call of \<^verbatim>\<open>V3AgentHandler.execute\<close>; when the call returned a result, \<open>n\<close> is the
  number of times it invoked the model, and it is 0 for a call that threw.\<close>

datatype agentEvent =
    TryReplay AgentCacheContext
  | TryReplayAsStream AgentCacheContext
  | BeginRecording
  | EndRecording
  | DiscardRecording
  | HandlerExecute nat
  | CuaHandlerExecute
  | ApiAgentExecute
  | HandlerStream
  | WrapStreamForCaching AgentCacheContext
  | Store AgentCacheContext "AgentReplayStep list" AgentResult

datatype streamKind = ReplayedStream | LiveStream | CachingStream

datatype returned =
    Returns AgentResult
  | ReturnsStream streamKind
  | Throws thrown

text \<open>The error classes are declared elsewhere (sdkErrors); a thrown instance is kept as
  the class name and the constructor's argument.\<close>

definition experimentalNotConfigured :: "string \<Rightarrow> thrown" where
  "experimentalNotConfigured what = StagehandError (''ExperimentalNotConfiguredError: '' @ what)"

definition prepareAgentExecution :: "V3Env \<Rightarrow> AgentConfig \<Rightarrow> thrown + AgentCacheContext option" where
  "prepareAgentExecution v3 config =
     (if (integrations config \<or> tools config) \<and> \<not> experimental v3
      then Inl (experimentalNotConfigured ''MCP integrations and custom tools'')
      else (case collaborators v3 of
              Some e \<Rightarrow> Inl e
            | None \<Rightarrow> Inr (if shouldAttemptCache v3 then prepareContext v3 else None)))"

text \<open>The call of the handler inside the \<^verbatim>\<open>try\<close>: through the API client when there
  is one and the instance is not experimental, else \<^verbatim>\<open>handler.execute\<close>.  \<open>None\<close>
  when the handler never returns.\<close>

definition runDefaultHandler ::
  "V3Env \<Rightarrow> instructionOrOptions \<Rightarrow> (agentEvent \<times> (thrown + AgentResult)) option"
where
  "runDefaultHandler v3 io =
     (if apiClient v3 \<and> \<not> experimental v3 then Some (ApiAgentExecute, apiAgentExecute v3)
      else (case execute (handlerEnv v3) io of
              None \<Rightarrow> None
            | Some (Inl e) \<Rightarrow> Some (HandlerExecute 0, Inl e)
            | Some (Inr (r, result)) \<Rightarrow> Some (HandlerExecute (modelCalls r), Inr result)))"

definition runCuaHandler :: "V3Env \<Rightarrow> (agentEvent \<times> (thrown + AgentResult)) option" where
  "runCuaHandler v3 =
     (if apiClient v3 \<and> \<not> experimental v3 then Some (ApiAgentExecute, apiAgentExecute v3)
      else Some (CuaHandlerExecute, cuaHandlerExecute v3))"

text \<open>The part both non-streaming paths have word for word: begin the recording, run
  the handler, end the recording, store, with the \<^verbatim>\<open>catch\<close> and the \<^verbatim>\<open>finally\<close>
  that discard the recording.\<close>

definition recordRunStore ::
  "V3Env \<Rightarrow> AgentCacheContext option \<Rightarrow> (agentEvent \<times> (thrown + AgentResult)) option
     \<Rightarrow> agentEvent list \<Rightarrow> (agentEvent list \<times> returned) option"
where
  "recordRunStore v3 cacheContext handlerRun evs =
     (let recording = (cacheContext \<noteq> None);
          evs1 = evs @ (if recording then [BeginRecording] else []);
          discard = (if recording then [DiscardRecording] else [])
      in case handlerRun of
           None \<Rightarrow> None
         | Some (ev, Inl e) \<Rightarrow> Some (evs1 @ [ev] @ discard @ discard, Throws e)
         | Some (ev, Inr result) \<Rightarrow>
             (let evs2 = evs1 @ [ev] @ (if recording then [EndRecording] else []);
                  agentSteps = (if recording then recorded v3 else [])
              in case cacheContext of
                   None \<Rightarrow> Some (evs2 @ discard, Returns result)
                 | Some ctx \<Rightarrow>
                     if success result \<and> length agentSteps > 0 then
                       (case store v3 of
                          Some e \<Rightarrow>
                            Some (evs2 @ [Store ctx agentSteps result] @ discard @ discard, Throws e)
                        | None \<Rightarrow>
                            Some (evs2 @ [Store ctx agentSteps result] @ discard, Returns result))
                     else Some (evs2 @ discard, Returns result)))"

text \<open>The replay attempt: \<open>Inl\<close> when \<^verbatim>\<open>execute\<close> ends there (a replayed result or a
  thrown value), \<open>Inr\<close> the events so far when it goes on.\<close>

definition replayOrGoOn ::
  "V3Env \<Rightarrow> AgentCacheContext option \<Rightarrow> (agentEvent list \<times> returned) + agentEvent list"
where
  "replayOrGoOn v3 cacheContext =
     (case cacheContext of
        None \<Rightarrow> Inr []
      | Some ctx \<Rightarrow>
          (case tryReplay v3 ctx of
             Inl e \<Rightarrow> Inl ([TryReplay ctx], Throws e)
           | Inr (Some replayed) \<Rightarrow> Inl ([TryReplay ctx], Returns replayed)
           | Inr None \<Rightarrow> Inr [TryReplay ctx]))"

text \<open>\<^verbatim>\<open>agent(options).execute\<close> of the tool-based agent, streaming and not.\<close>

definition executeStreaming :: "V3Env \<Rightarrow> AgentConfig \<Rightarrow> (agentEvent list \<times> returned) option" where
  "executeStreaming v3 config =
     (if \<not> experimental v3 then Some ([], Throws (experimentalNotConfigured ''Agent streaming''))
      else (case prepareAgentExecution v3 config of
              Inl e \<Rightarrow> Some ([], Throws e)
            | Inr cacheContext \<Rightarrow>
                (let afterReplay =
                       (case cacheContext of
                          None \<Rightarrow> Inr []
                        | Some ctx \<Rightarrow>
                            (case tryReplayAsStream v3 ctx of
                               Inl e \<Rightarrow> Inl ([TryReplayAsStream ctx], Throws e)
                             | Inr True \<Rightarrow>
                                 Inl ([TryReplayAsStream ctx], ReturnsStream ReplayedStream)
                             | Inr False \<Rightarrow> Inr [TryReplayAsStream ctx]))
                 in case afterReplay of
                      Inl done \<Rightarrow> Some done
                    | Inr evs \<Rightarrow>
                        (case handlerStream v3 of
                           Some e \<Rightarrow> Some (evs @ [HandlerStream], Throws e)
                         | None \<Rightarrow>
                             (case cacheContext of
                                Some ctx \<Rightarrow>
                                  Some (evs @ [HandlerStream, WrapStreamForCaching ctx],
                                        ReturnsStream CachingStream)
                              | None \<Rightarrow> Some (evs @ [HandlerStream], ReturnsStream LiveStream))))))"

definition executeDefault ::
  "V3Env \<Rightarrow> AgentConfig \<Rightarrow> instructionOrOptions \<Rightarrow> (agentEvent list \<times> returned) option"
where
  "executeDefault v3 config io =
     (if stream config then executeStreaming v3 config
      else (case prepareAgentExecution v3 config of
              Inl e \<Rightarrow> Some ([], Throws e)
            | Inr cacheContext \<Rightarrow>
                (case replayOrGoOn v3 cacheContext of
                   Inl done \<Rightarrow> Some done
                 | Inr evs \<Rightarrow>
                     recordRunStore v3 cacheContext (runDefaultHandler v3 io) evs)))"

text \<open>\<^verbatim>\<open>agent(options).execute\<close> of the computer-use agent: its set-up, written out in
  the closure, and the rest.\<close>

definition cuaSetUp :: "V3Env \<Rightarrow> AgentConfig \<Rightarrow> thrown + AgentCacheContext option" where
  "cuaSetUp v3 config =
     (if integrations config \<and> \<not> experimental v3
      then Inl (experimentalNotConfigured ''MCP integrations'')
      else (case collaborators v3 of
              Some e \<Rightarrow> Inl e
            | None \<Rightarrow> Inr (if shouldAttemptCache v3 then prepareContext v3 else None)))"

definition executeCua :: "V3Env \<Rightarrow> AgentConfig \<Rightarrow> (agentEvent list \<times> returned) option" where
  "executeCua v3 config =
     (case cuaSetUp v3 config of
        Inl e \<Rightarrow> Some ([], Throws e)
      | Inr cacheContext \<Rightarrow>
          (case replayOrGoOn v3 cacheContext of
             Inl done \<Rightarrow> Some done
           | Inr evs \<Rightarrow> recordRunStore v3 cacheContext (runCuaHandler v3) evs))"

text \<open>\<^verbatim>\<open>agent(options)\<close> throws for a configuration it refuses, else it returns the
  object whose \<^verbatim>\<open>execute\<close> is one of the two above.\<close>

definition agent ::
  "V3Env \<Rightarrow> AgentConfig
     \<Rightarrow> thrown + (instructionOrOptions \<Rightarrow> (agentEvent list \<times> returned) option)"
where
  "agent v3 config =
     (if cua config then
        (if stream config
         then Inl (StagehandError ''StagehandInvalidArgumentError: Streaming is not supported with CUA (Computer Use Agent) mode'')
         else if (integrations config \<or> tools config) \<and> \<not> experimental v3
         then Inl (experimentalNotConfigured ''MCP integrations and custom tools'')
         else if \<not> isCuaModel v3 then Inl (StagehandError ''CuaModelRequiredError'')
         else Inr (\<lambda>io. executeCua v3 config))
      else Inr (executeDefault v3 config))"

section \<open>Reading a trace\<close>







section \<open>Reading a run\<close>

definition callsClose :: "ToolCall list \<Rightarrow> bool" where
  "callsClose calls = list_ex (\<lambda>tc. functionName tc = ''close'') calls"

definition sdkCallsClose :: "StepResult \<Rightarrow> bool" where
  "sdkCallsClose event = list_ex (\<lambda>tc. toolName tc = ''close'') (toolCalls event)"

fun runOf :: "iteration \<Rightarrow> Run" where
  "runOf (Continue r) = r"
| "runOf (Break r) = r"
| "runOf (Throw r e) = r"

definition closeAt :: "HandlerEnv \<Rightarrow> nat \<Rightarrow> bool" where
  "closeAt env k = (case sdkStep env k of Inl e \<Rightarrow> False | Inr event \<Rightarrow> sdkCallsClose event)"

text \<open>Some step's tool calls of the run included \<^verbatim>\<open>close\<close>.  On the OAuth backend
  the tool calls of a step are those of the assistant message the loop appended for it;
  on the AI SDK backend they are those of one of the steps the model was invoked for.\<close>

definition oauthCloseCalled :: "Run \<Rightarrow> bool" where
  "oauthCloseCalled r =
     list_ex (\<lambda>m. msgRole m = Assistant \<and> callsClose (msgToolCalls m)) (chatMessages r)"

definition closeCalled :: "HandlerEnv \<Rightarrow> Run \<Rightarrow> bool" where
  "closeCalled env r =
     (if oauthMode env then oauthCloseCalled r else list_ex (closeAt env) [0..<modelCalls r])"


text \<open>The run as it is when \<open>n\<close> more steps have finished, each going on to the next
  one; \<open>None\<close> when the loop ends before.  For the OAuth loop from step \<open>step\<close> in
  state \<open>r\<close>, for the AI SDK from the steps \<open>steps\<close> in state \<open>r\<close>.\<close>

fun codeAssistAfter ::
  "HandlerEnv \<Rightarrow> AgentExecuteOptions \<Rightarrow> int \<Rightarrow> nat \<Rightarrow> Run \<Rightarrow> nat \<Rightarrow> Run option"
where
  "codeAssistAfter env options maxSteps' step r 0 = Some r"
| "codeAssistAfter env options maxSteps' step r (Suc n) =
     (if int step < maxSteps' \<and> \<not> completed r then
        (case codeAssistStep env options step r of
           Continue r' \<Rightarrow> codeAssistAfter env options maxSteps' (Suc step) r' n
         | Break r' \<Rightarrow> None
         | Throw r' e \<Rightarrow> None)
      else None)"

fun generateTextAfter ::
  "HandlerEnv \<Rightarrow> AgentExecuteOptions \<Rightarrow> int \<Rightarrow> StepResult list \<Rightarrow> Run \<Rightarrow> nat
     \<Rightarrow> (StepResult list \<times> Run) option"
where
  "generateTextAfter env options maxSteps' steps r 0 = Some (steps, r)"
| "generateTextAfter env options maxSteps' steps r (Suc n) =
     (case sdkStep env (length steps) of
        Inl e \<Rightarrow> None
      | Inr event \<Rightarrow>
          (case stepHandler env options event (r\<lparr>modelCalls := Suc (modelCalls r)\<rparr>) of
             (r', Some e) \<Rightarrow> None
           | (r', None) \<Rightarrow>
               if toolCalls event = [] \<or> handleStop (steps @ [event]) maxSteps' then None
               else generateTextAfter env options maxSteps' (steps @ [event]) r' n))"

text \<open>The state of \<^verbatim>\<open>execute\<close> at the boundary before step \<open>k\<close> (from 0), and whether
  step \<open>k\<close> begins there: the OAuth loop enters it, the AI SDK delivers it to the step
  handler.\<close>

definition stateBeforeStep :: "HandlerEnv \<Rightarrow> AgentContext \<Rightarrow> nat \<Rightarrow> Run option" where
  "stateBeforeStep env ctx k =
     (if oauthMode env then
        codeAssistAfter env (ctxOptions ctx) (ctxMaxSteps ctx) 0
          ((initialRun (initialPageUrl ctx))
             \<lparr>chatMessages :=
                \<lparr>msgRole = System, msgContent = Text (systemPrompt ctx), msgToolCalls = []\<rparr>
                # messages ctx\<rparr>) k
      else map_option snd
             (generateTextAfter env (ctxOptions ctx) (ctxMaxSteps ctx) []
                (initialRun (initialPageUrl ctx)) k))"

definition stepBegins :: "HandlerEnv \<Rightarrow> AgentContext \<Rightarrow> nat \<Rightarrow> Run \<Rightarrow> bool" where
  "stepBegins env ctx k r =
     (if oauthMode env then int k < ctxMaxSteps ctx \<and> \<not> completed r
      else (case sdkStep env k of Inl e \<Rightarrow> False | Inr event \<Rightarrow> True))"






section \<open>Concrete collaborators and runs\<close>

definition replayedResult :: AgentResult where
  "replayedResult =
     \<lparr>success = True, message = ''done'', resultActions = [], resultCompleted = True,
      usage = None\<rparr>"

text \<open>A handler on the OAuth backend whose model answers with no choice at all.\<close>

definition idleHandlerEnv :: HandlerEnv where
  "idleHandlerEnv =
     \<lparr>oauthMode = True, hasGetLanguageModel = False, systemInstructions = None,
      initialPage = Inr ''about:blank'', allTools = (\<lambda>name. None),
      mapToolResultToActions = (\<lambda>name res args rs. []),
      llmCreateChatCompletion = (\<lambda>k msgs. Inr \<lparr>choices = [], llmUsage = None\<rparr>),
      sdkStep = (\<lambda>k. Inl (JsError ''no provider'')), pageUrlAfterStep = (\<lambda>k. ''about:blank''),
      sdkUsage = None, startTime = 0, endTime = 0, stampTime = (\<lambda>i. 0)\<rparr>"

text \<open>An instance whose cache has a replay script for every context.\<close>

definition cachedV3 :: V3Env where
  "cachedV3 =
     \<lparr>experimental = False, apiClient = False, isCuaModel = True, collaborators = None,
      shouldAttemptCache = True, prepareContext = Some ''fingerprint'',
      tryReplay = (\<lambda>ctx. Inr (Some replayedResult)), tryReplayAsStream = (\<lambda>ctx. Inr True),
      recorded = [], store = None, apiAgentExecute = Inl (JsError ''no api''),
      cuaHandlerExecute = Inl (JsError ''no cua''), handlerStream = None,
      handlerEnv = idleHandlerEnv\<rparr>"

definition plainConfig :: AgentConfig where
  "plainConfig = \<lparr>cua = False, stream = False, integrations = False, tools = False\<rparr>"

definition zeroStepOptions :: AgentExecuteOptions where
  "zeroStepOptions =
     \<lparr>instruction = ''open example.com'', maxSteps = Some 0, onStep = False,
      checkPauseState = None\<rparr>"

text \<open>A mapping that makes one action of every tool call, and a handler on the OAuth
  backend whose model calls \<^verbatim>\<open>close\<close> at once, with the given \<^verbatim>\<open>taskComplete\<close>.\<close>

definition oneAction ::
  "string \<Rightarrow> toolResult option \<Rightarrow> ToolArgs option \<Rightarrow> string option \<Rightarrow> AgentAction list"
where
  "oneAction name res args rs = [\<lparr>atype = name, payload = [], pageUrl = None, timestamp = None\<rparr>]"

definition closeCall :: "bool \<Rightarrow> ToolCall" where
  "closeCall done =
     \<lparr>functionName = ''close'',
      arguments = ParsedValue \<lparr>taskComplete = done, reasoning = [], otherArgs = []\<rparr>\<rparr>"

definition closingHandlerEnv :: "bool \<Rightarrow> HandlerEnv" where
  "closingHandlerEnv done =
     idleHandlerEnv
       \<lparr>mapToolResultToActions := oneAction,
        llmCreateChatCompletion :=
          (\<lambda>k msgs. Inr \<lparr>choices = [\<lparr>content = [], tool_calls = [closeCall done]\<rparr>],
                          llmUsage = None\<rparr>)\<rparr>"

definition closeAction :: AgentAction where
  "closeAction =
     \<lparr>atype = ''close'', payload = [], pageUrl = Some ''about:blank'', timestamp = Some 0\<rparr>"

definition closedResult :: AgentResult where
  "closedResult =
     \<lparr>success = True, message = ''Task completed successfully'', resultActions = [closeAction],
      resultCompleted = True,
      usage = Some \<lparr>input_tokens = 0, output_tokens = 0, reasoning_tokens = 0,
                    cached_input_tokens = 0, inference_time_ms = 0\<rparr>\<rparr>"

text \<open>An instance whose cache misses and whose run records one replay step.\<close>

definition recordingV3 :: V3Env where
  "recordingV3 =
     cachedV3\<lparr>tryReplay := (\<lambda>ctx. Inr None), recorded := [''close''],
              handlerEnv := closingHandlerEnv True\<rparr>"








definition toolCallOf :: "string \<Rightarrow> ToolCall" where
  "toolCallOf name =
     \<lparr>functionName = name,
      arguments = ParsedValue \<lparr>taskComplete = False, reasoning = [], otherArgs = []\<rparr>\<rparr>"




text \<open>A handler on the OAuth backend with two tools that work, \<^verbatim>\<open>goto\<close> and
  \<^verbatim>\<open>wait\<close>, whose model calls both in its first answer and says it is done in the
  next; and options with an \<open>onStep\<close> callback.\<close>

definition twoToolsEnv :: HandlerEnv where
  "twoToolsEnv =
     idleHandlerEnv
       \<lparr>mapToolResultToActions := oneAction,
        allTools :=
          (\<lambda>name. if name = ''goto'' \<or> name = ''wait''
                   then Some (\<lambda>args. ToolReturns (ToolValue ''ok'') ''https://example.com'')
                   else None),
        llmCreateChatCompletion :=
          (\<lambda>k msgs. Inr \<lparr>choices =
                            [\<lparr>content = (if k = 0 then [] else ''done''),
                              tool_calls =
                                (if k = 0 then [toolCallOf ''goto'', toolCallOf ''wait''] else [])\<rparr>],
                          llmUsage = None\<rparr>)\<rparr>"

definition watchedOptions :: AgentExecuteOptions where
  "watchedOptions =
     \<lparr>instruction = ''open example.com'', maxSteps = None, onStep = True,
      checkPauseState = None\<rparr>"

definition gotoStep :: StepResult where
  "gotoStep =
     \<lparr>stepText = [], toolCalls = [\<lparr>toolName = ''goto'', toolInput = None\<rparr>],
      toolResults = [ToolValue ''ok'']\<rparr>"


definition pauseAtSecondStep :: AgentExecuteOptions where
  "pauseAtSecondStep =
     \<lparr>instruction = ''a plan of five steps'', maxSteps = Some 5, onStep = False,
      checkPauseState = Some (\<lambda>k. if k = 1 then Some (JsError ''paused by the user'') else None)\<rparr>"

definition threeStepOptions :: AgentExecuteOptions where
  "threeStepOptions =
     \<lparr>instruction = ''keep going'', maxSteps = Some 3, onStep = False, checkPauseState = None\<rparr>"

text \<open>Options with a negative step ceiling, and options whose pause check rejects at the
  second step with a value that cannot be rendered.\<close>

definition minusOneOptions :: AgentExecuteOptions where
  "minusOneOptions =
     \<lparr>instruction = ''keep going'', maxSteps = Some (- 1), onStep = False,
      checkPauseState = None\<rparr>"

definition unprintablePause :: AgentExecuteOptions where
  "unprintablePause =
     \<lparr>instruction = ''a plan of five steps'', maxSteps = Some 5, onStep = False,
      checkPauseState = Some (\<lambda>k. if k = 1 then Some Unprintable else None)\<rparr>"

text \<open>A model that calls \<^verbatim>\<open>goto\<close> in every answer and never \<^verbatim>\<open>close\<close>, and one whose
  provider fails from the second request on.\<close>

definition restlessEnv :: HandlerEnv where
  "restlessEnv =
     twoToolsEnv
       \<lparr>llmCreateChatCompletion :=
          (\<lambda>k msgs. Inr \<lparr>choices = [\<lparr>content = [], tool_calls = [toolCallOf ''goto'']\<rparr>],
                          llmUsage = None\<rparr>)\<rparr>"

definition failingProviderEnv :: HandlerEnv where
  "failingProviderEnv =
     twoToolsEnv
       \<lparr>llmCreateChatCompletion :=
          (\<lambda>k msgs.
             if k = 0
             then Inr \<lparr>choices = [\<lparr>content = [], tool_calls = [toolCallOf ''goto'']\<rparr>],
                       llmUsage = None\<rparr>
             else Inl (StagehandError ''Code Assist API request failed: ECONNRESET''))\<rparr>"

text \<open>A handler on the AI SDK backend whose mapping makes two actions of a
  \<^verbatim>\<open>fillForm\<close> call, and whose model calls \<^verbatim>\<open>fillForm\<close> in its first step and
  ends in the second.\<close>

definition fillFormEnv :: HandlerEnv where
  "fillFormEnv =
     idleHandlerEnv
       \<lparr>oauthMode := False, hasGetLanguageModel := True,
        mapToolResultToActions :=
          (\<lambda>name res args rs.
             if name = ''fillForm''
             then [\<lparr>atype = ''fillForm'', payload = [], pageUrl = None, timestamp = None\<rparr>,
                   \<lparr>atype = ''act'', payload = [], pageUrl = None, timestamp = None\<rparr>]
             else oneAction name res args rs),
        sdkStep :=
          (\<lambda>k. if k = 0
               then Inr \<lparr>stepText = [],
                         toolCalls = [\<lparr>toolName = ''fillForm'', toolInput = None\<rparr>],
                         toolResults = [ToolValue ''ok'']\<rparr>
               else Inr \<lparr>stepText = ''done'', toolCalls = [], toolResults = []\<rparr>)\<rparr>"

text \<open>The same two models on the AI SDK backend: one that calls \<^verbatim>\<open>goto\<close> in every
  step, and one that calls \<^verbatim>\<open>close\<close> with \<^verbatim>\<open>taskComplete: false\<close> at once.\<close>

definition restlessSdkEnv :: HandlerEnv where
  "restlessSdkEnv =
     restlessEnv\<lparr>oauthMode := False, hasGetLanguageModel := True, sdkStep := (\<lambda>k. Inr gotoStep)\<rparr>"

definition closingSdkEnv :: HandlerEnv where
  "closingSdkEnv =
     restlessSdkEnv
       \<lparr>sdkStep :=
          (\<lambda>k. Inr \<lparr>stepText = [],
                     toolCalls =
                       [\<lparr>toolName = ''close'',
                         toolInput = Some \<lparr>taskComplete = False, reasoning = [],
                                           otherArgs = []\<rparr>\<rparr>],
                     toolResults = []\<rparr>)\<rparr>"


section \<open>The step ceiling\<close>

text \<open>C10: when the options give \<open>maxSteps\<close> as 0, or do not give it, the step ceiling
  that \<^verbatim>\<open>prepareAgent\<close> hands to the loop is the default 20, so passing
  \<^verbatim>\<open>maxSteps: 0\<close> does not ask for a run without steps.\<close>

theorem maxSteps_falsy_is_default:
  assumes "maxSteps (resolveOptions io) = Some 0 \<or> maxSteps (resolveOptions io) = None"
  shows "effectiveMaxSteps (resolveOptions io) = 20
         \<and> (\<forall>ctx. prepareAgent env io = Inr ctx \<longrightarrow> ctxMaxSteps ctx = 20)"
  using assms
  by (auto simp: effectiveMaxSteps_def prepareAgent_def Let_def split: sum.splits if_splits)

theorem maxSteps_falsy_is_default_witness:
  "maxSteps (resolveOptions (Options zeroStepOptions)) = Some 0
   \<and> map_sum id ctxMaxSteps (prepareAgent idleHandlerEnv (Options zeroStepOptions)) = Inr 20"
proof -
  have z: "maxSteps (resolveOptions (Options zeroStepOptions)) = Some 0"
    by (simp add: resolveOptions_def zeroStepOptions_def)
  have p: "\<exists>ctx. prepareAgent idleHandlerEnv (Options zeroStepOptions) = Inr ctx"
    by (simp add: prepareAgent_def idleHandlerEnv_def Let_def)
  from maxSteps_falsy_is_default [of "Options zeroStepOptions" idleHandlerEnv] z p
  show ?thesis by auto
qed

section \<open>The orchestrator and the cache\<close>

text \<open>C2: in a non-streaming \<^verbatim>\<open>execute\<close> whose set-up gave a cache context and whose
  \<^verbatim>\<open>tryReplay\<close> returned a result, \<^verbatim>\<open>execute\<close> returns that result at once.  The
  replay attempt is the only thing it did: no recording was begun, no handler was
  called (so the handler's loop invoked no model), nothing was stored.\<close>

theorem replay_hit_returns_immediately:
  assumes "agent v3 config = Inr exec" and "\<not> stream config"
    and "(if cua config then cuaSetUp v3 config else prepareAgentExecution v3 config)
           = Inr (Some ctx)"
    and "tryReplay v3 ctx = Inr (Some replayed)"
  shows "exec io = Some ([TryReplay ctx], Returns replayed)"
proof (cases "cua config")
  case True
  with assms(1) have "exec = (\<lambda>io. executeCua v3 config)"
    by (auto simp: agent_def split: if_splits)
  with True assms(3,4) show ?thesis
    by (simp add: executeCua_def replayOrGoOn_def)
next
  case False
  with assms(1) have "exec = executeDefault v3 config"
    by (simp add: agent_def)
  with False assms(2,3,4) show ?thesis
    by (simp add: executeDefault_def replayOrGoOn_def)
qed

theorem replay_hit_returns_immediately_witness:
  "agent cachedV3 plainConfig = Inr (executeDefault cachedV3 plainConfig)
   \<and> executeDefault cachedV3 plainConfig (Instruction ''buy milk'')
       = Some ([TryReplay ''fingerprint''], Returns replayedResult)"
proof -
  have a: "agent cachedV3 plainConfig = Inr (executeDefault cachedV3 plainConfig)"
    by (simp add: agent_def plainConfig_def)
  have b: "\<not> stream plainConfig" by (simp add: plainConfig_def)
  have c: "(if cua plainConfig then cuaSetUp cachedV3 plainConfig
            else prepareAgentExecution cachedV3 plainConfig) = Inr (Some ''fingerprint'')"
    by (simp add: plainConfig_def prepareAgentExecution_def cachedV3_def)
  have d: "tryReplay cachedV3 ''fingerprint'' = Inr (Some replayedResult)"
    by (simp add: cachedV3_def)
  from replay_hit_returns_immediately [OF a b c d] a show ?thesis by simp
qed

lemma recordRunStore_store:
  assumes "recordRunStore v3 cacheContext handlerRun evs = Some (evs', out)"
    and "Store ctx steps result \<in> set evs'" and "\<forall>c s r. Store c s r \<notin> set evs"
    and "\<forall>c s r x. handlerRun \<noteq> Some (Store c s r, x)"
  shows "cacheContext = Some ctx \<and> steps = recorded v3 \<and> success result \<and> steps \<noteq> []
         \<and> (out = Returns result \<or> (\<exists>e. out = Throws e))"
  using assms
  by (auto simp: recordRunStore_def Let_def runDefaultHandler_def
           split: option.splits sum.splits if_splits prod.splits)

lemma replayOrGoOn_no_store:
  "replayOrGoOn v3 cacheContext = Inl (evs, out) \<Longrightarrow> Store c s r \<notin> set evs"
  "replayOrGoOn v3 cacheContext = Inr evs \<Longrightarrow> Store c s r \<notin> set evs"
  by (auto simp: replayOrGoOn_def split: option.splits sum.splits)

lemma executeStreaming_no_store:
  "executeStreaming v3 config = Some (evs, out) \<Longrightarrow> Store c s r \<notin> set evs"
  by (auto simp: executeStreaming_def Let_def split: option.splits sum.splits if_splits bool.splits)

lemma handlerRun_store:
  assumes "(case setUp of
             Inl e \<Rightarrow> Some ([], Throws e)
           | Inr cacheContext \<Rightarrow>
               (case replayOrGoOn v3 cacheContext of
                  Inl done \<Rightarrow> Some done
                | Inr evs0 \<Rightarrow> recordRunStore v3 cacheContext handlerRun evs0)) = Some (evs, out)"
    and "Store ctx steps result \<in> set evs"
    and "\<forall>c s r x. handlerRun \<noteq> Some (Store c s r, x)"
  shows "steps = recorded v3 \<and> success result \<and> steps \<noteq> []
         \<and> (out = Returns result \<or> (\<exists>e. out = Throws e))"
proof (cases setUp)
  case (Inl e)
  with assms show ?thesis by simp
next
  case (Inr cacheContext)
  show ?thesis
  proof (cases "replayOrGoOn v3 cacheContext")
    case (Inl fin)
    with Inr assms replayOrGoOn_no_store(1) [of v3 cacheContext evs out] show ?thesis
      by (cases fin) auto
  next
    case inr: (Inr evs0)
    with Inr assms(1) have "recordRunStore v3 cacheContext handlerRun evs0 = Some (evs, out)"
      by simp
    moreover from inr have "\<forall>c s r. Store c s r \<notin> set evs0"
      by (auto dest: replayOrGoOn_no_store(2))
    ultimately show ?thesis
      using recordRunStore_store [of v3 cacheContext handlerRun evs0 evs out ctx steps result] assms(2,3)
      by blast
  qed
qed

lemma handlers_no_store:
  "runDefaultHandler v3 io \<noteq> Some (Store c s r, x)" "runCuaHandler v3 \<noteq> Some (Store c s r, x)"
  by (auto simp: runDefaultHandler_def runCuaHandler_def split: option.splits sum.splits if_splits)

text \<open>C5: \<^verbatim>\<open>agentCache.store\<close> is called by \<^verbatim>\<open>execute\<close> only with the result of the run
  just made, only when that result has \<open>success\<close> and only with the recorded steps, which
  are then not empty.  So a failed run and a run that recorded no step store nothing.
  (With \<^verbatim>\<open>stream: true\<close> \<^verbatim>\<open>V3.agent\<close> itself stores nothing: it hands the stream to
  \<^verbatim>\<open>wrapStreamForCaching\<close> of the cache.)\<close>

theorem store_only_after_success_with_steps:
  assumes "agent v3 config = Inr exec" and "exec io = Some (evs, out)"
    and "Store ctx steps result \<in> set evs"
  shows "success result \<and> steps \<noteq> [] \<and> steps = recorded v3
         \<and> (out = Returns result \<or> (\<exists>e. out = Throws e))"
proof (cases "cua config")
  case True
  with assms(1) have "exec = (\<lambda>io. executeCua v3 config)"
    by (auto simp: agent_def split: if_splits)
  with assms(2) have "executeCua v3 config = Some (evs, out)" by simp
  then show ?thesis
    unfolding executeCua_def using handlerRun_store [OF _ assms(3)] handlers_no_store(2) by blast
next
  case False
  with assms(1) have e: "exec = executeDefault v3 config"
    by (simp add: agent_def)
  show ?thesis
  proof (cases "stream config")
    case True
    with e assms(2) have "executeStreaming v3 config = Some (evs, out)"
      by (simp add: executeDefault_def)
    with assms(3) show ?thesis by (auto dest: executeStreaming_no_store)
  next
    case False
    with e assms(2) have "(case prepareAgentExecution v3 config of
             Inl e \<Rightarrow> Some ([], Throws e)
           | Inr cacheContext \<Rightarrow>
               (case replayOrGoOn v3 cacheContext of
                  Inl done \<Rightarrow> Some done
                | Inr evs0 \<Rightarrow> recordRunStore v3 cacheContext (runDefaultHandler v3 io) evs0)) = Some (evs, out)"
      by (simp add: executeDefault_def)
    from handlerRun_store [OF this assms(3)] handlers_no_store(1) show ?thesis by blast
  qed
qed

theorem store_only_after_success_with_steps_witness:
  "executeDefault recordingV3 plainConfig (Instruction ''close the tab'')
     = Some ([TryReplay ''fingerprint'', BeginRecording, HandlerExecute 1, EndRecording,
              Store ''fingerprint'' [''close''] closedResult, DiscardRecording],
             Returns closedResult)
   \<and> success closedResult \<and> [''close''] \<noteq> ([] :: AgentReplayStep list)
   \<and> [''close''] = recorded recordingV3"
proof -
  let ?evs = "[TryReplay ''fingerprint'', BeginRecording, HandlerExecute 1, EndRecording,
               Store ''fingerprint'' [''close''] closedResult, DiscardRecording]"
  have a: "agent recordingV3 plainConfig = Inr (executeDefault recordingV3 plainConfig)"
    by (simp add: agent_def plainConfig_def)
  have b: "executeDefault recordingV3 plainConfig (Instruction ''close the tab'')
             = Some (?evs, Returns closedResult)"
    by code_simp
  have c: "Store ''fingerprint'' [''close''] closedResult \<in> set ?evs" by simp
  from store_only_after_success_with_steps [OF a b c] b show ?thesis
    by (simp add: recordingV3_def cachedV3_def)
qed

section \<open>The retries of the OAuth/REST client\<close>












section \<open>What the pieces of a step leave unchanged\<close>

lemma emit_frame [simp]:
  "modelCalls (emit options u r) = modelCalls r"
  "completed (emit options u r) = completed r"
  "actions (emit options u r) = actions r"
  "chatMessages (emit options u r) = chatMessages r"
  "requests (emit options u r) = requests r"
  "stepNumber (emit options u r) = stepNumber r"
  "collectedReasoning (emit options u r) = collectedReasoning r"
  "finalMessage (emit options u r) = finalMessage r"
  "currentPageUrl (emit options u r) = currentPageUrl r"
  "totalUsage (emit options u r) = totalUsage r"
  by (simp_all add: emit_def)

lemma pushActions_frame [simp]:
  "modelCalls (pushActions env mapped r) = modelCalls r"
  "completed (pushActions env mapped r) = completed r"
  "chatMessages (pushActions env mapped r) = chatMessages r"
  "requests (pushActions env mapped r) = requests r"
  "stepNumber (pushActions env mapped r) = stepNumber r"
  "collectedReasoning (pushActions env mapped r) = collectedReasoning r"
  "finalMessage (pushActions env mapped r) = finalMessage r"
  "currentPageUrl (pushActions env mapped r) = currentPageUrl r"
  "totalUsage (pushActions env mapped r) = totalUsage r"
  "updates (pushActions env mapped r) = updates r"
  "actions (pushActions env mapped r)
     = actions r @ stamp env (currentPageUrl r) (length (actions r)) mapped"
  by (simp_all add: pushActions_def)

lemma closeToolCall_frame:
  assumes "closeToolCall env options t args r = (r', thrown)"
  shows "modelCalls r' = modelCalls r" "chatMessages r' = chatMessages r"
    "requests r' = requests r" "stepNumber r' = stepNumber r" "completed r'"
    "collectedReasoning r' = collectedReasoning r" "totalUsage r' = totalUsage r"
  using assms
  by (auto simp: closeToolCall_def Let_def split: option.splits if_splits)

lemma runToolCalls_frame:
  "runToolCalls env options t calls r results = (r', results', thrown) \<Longrightarrow>
     modelCalls r' = modelCalls r \<and> chatMessages r' = chatMessages r
     \<and> requests r' = requests r \<and> stepNumber r' = stepNumber r
     \<and> collectedReasoning r' = collectedReasoning r \<and> totalUsage r' = totalUsage r
     \<and> (completed r \<longrightarrow> completed r')"
proof (induction calls arbitrary: r results)
  case Nil
  then show ?case by simp
next
  case (Cons toolCall rest)
  show ?case
  proof (cases "parseArguments (arguments toolCall)")
    case (Inl e)
    with Cons.prems show ?thesis by simp
  next
    case (Inr toolArgs)
    show ?thesis
    proof (cases "functionName toolCall = ''close''")
      case True
      with Inr Cons.prems show ?thesis
        by (auto split: prod.splits option.splits dest: closeToolCall_frame)
    next
      case False
      with Inr Cons.prems show ?thesis
        by (auto simp: Let_def split: option.splits toolOutcome.splits sum.splits dest!: Cons.IH)
    qed
  qed
qed

lemma runToolCalls_completed:
  "runToolCalls env options t calls r results = (r', results', thrown) \<Longrightarrow>
     (\<not> callsClose calls \<longrightarrow> completed r' = completed r)
     \<and> (callsClose calls \<and> thrown = None \<longrightarrow> completed r')"
proof (induction calls arbitrary: r results)
  case Nil
  then show ?case by (simp add: callsClose_def)
next
  case (Cons toolCall rest)
  show ?case
  proof (cases "parseArguments (arguments toolCall)")
    case (Inl e)
    with Cons.prems show ?thesis by (auto simp: callsClose_def)
  next
    case (Inr toolArgs)
    show ?thesis
    proof (cases "functionName toolCall = ''close''")
      case True
      with Inr Cons.prems show ?thesis
        by (auto simp: callsClose_def split: prod.splits option.splits dest: closeToolCall_frame)
    next
      case False
      with Inr Cons.prems show ?thesis
        by (auto simp: Let_def callsClose_def split: option.splits toolOutcome.splits sum.splits
                 dest!: Cons.IH)
    qed
  qed
qed

lemma runToolCalls_props:
  assumes "runToolCalls env options t calls r results = (r', results', thrown)"
  shows "chatMessages r' = chatMessages r \<and> modelCalls r' = modelCalls r
         \<and> requests r' = requests r
         \<and> (\<not> callsClose calls \<longrightarrow> completed r' = completed r)
         \<and> (callsClose calls \<and> thrown = None \<longrightarrow> completed r')"
  using runToolCalls_frame [OF assms] runToolCalls_completed [OF assms] by simp





section \<open>Tool failures in the OAuth loop\<close>





section \<open>The updates given to onStep\<close>

lemma stamp_length [simp]: "length (stamp env url i mapped) = length mapped"
  by (induction mapped arbitrary: i) auto


lemma stamp_empty [simp]: "(stamp env url i mapped = []) = (mapped = [])"
  by (cases mapped) auto


lemma collectAndClose_frame [simp]:
  "modelCalls (collectAndClose event toolCall r) = modelCalls r"
  "stepNumber (collectAndClose event toolCall r) = stepNumber r"
  "updates (collectAndClose event toolCall r) = updates r"
  "currentPageUrl (collectAndClose event toolCall r) = currentPageUrl r"
  "actions (collectAndClose event toolCall r) = actions r"
  "completed (collectAndClose event toolCall r) = (completed r \<or> toolName toolCall = ''close'')"
  by (auto simp: collectAndClose_def Let_def split: option.splits)

lemma handleToolCalls_frame:
  "modelCalls (handleToolCalls env event i calls r) = modelCalls r
   \<and> stepNumber (handleToolCalls env event i calls r) = stepNumber r
   \<and> updates (handleToolCalls env event i calls r) = updates r
   \<and> currentPageUrl (handleToolCalls env event i calls r) = currentPageUrl r
   \<and> completed (handleToolCalls env event i calls r)
       = (completed r \<or> list_ex (\<lambda>tc. toolName tc = ''close'') calls)"
  by (induction calls arbitrary: i r) (auto simp: Let_def)





section \<open>The OAuth loop, step by step\<close>

lemma readMessage_renderable:
  "readMessage e = Inl typeError \<Longrightarrow> \<exists>m. messageOrString typeError = Inr m"
  by (cases e) auto

lemma codeAssistStep_modelCalls:
  "modelCalls (runOf (codeAssistStep env options step r)) \<le> Suc (modelCalls r)"
  by (auto simp: codeAssistStep_def Let_def
           split: option.splits prod.splits sum.splits list.splits if_splits
           dest!: runToolCalls_frame)

lemma codeAssistLoop_bound:
  "modelCalls (fst (codeAssistLoop env options M step r)) \<le> modelCalls r + nat (M - int step)"
proof (induction env options M step r rule: codeAssistLoop.induct)
  case (1 env options M step r)
  show ?case
  proof (cases "int step < M \<and> \<not> completed r")
    case False
    then show ?thesis by (subst codeAssistLoop.simps) auto
  next
    case True
    from codeAssistStep_modelCalls [of env options step r]
    have m: "modelCalls (runOf (codeAssistStep env options step r)) \<le> Suc (modelCalls r)" .
    show ?thesis
    proof (cases "codeAssistStep env options step r")
      case (Continue r')
      from 1 [OF True Continue] m True Continue show ?thesis
        by (subst codeAssistLoop.simps) auto
    next
      case (Break r')
      with m True show ?thesis by (subst codeAssistLoop.simps) auto
    next
      case (Throw r' e)
      with m True show ?thesis by (subst codeAssistLoop.simps) auto
    qed
  qed
qed

lemma codeAssistAfter_loop:
  "codeAssistAfter env options M step r n = Some r' \<Longrightarrow>
     codeAssistLoop env options M step r = codeAssistLoop env options M (step + n) r'"
proof (induction n arbitrary: step r)
  case 0
  then show ?case by simp
next
  case (Suc n)
  from Suc.prems obtain r1 where g: "int step < M \<and> \<not> completed r"
    and s: "codeAssistStep env options step r = Continue r1"
    and a: "codeAssistAfter env options M (Suc step) r1 n = Some r'"
    by (auto split: if_splits iteration.splits)
  from Suc.IH [OF a] g s show ?case
    by (subst codeAssistLoop.simps) simp
qed

lemma pause_ends_step:
  "pauseCheck options step = Some x \<Longrightarrow>
     codeAssistStep env options step r = Break r
     \<or> (\<exists>e m. codeAssistStep env options step r = Throw r e \<and> messageOrString e = Inr m)"
  by (auto simp: codeAssistStep_def pauseCheck_def split: prod.splits sum.splits option.splits
           dest: readMessage_renderable)

lemma pause_ends_loop:
  assumes "pauseCheck options step = Some x" and "int step < M \<and> \<not> completed r"
  shows "codeAssistLoop env options M step r = (r, None)
         \<or> (\<exists>e m. codeAssistLoop env options M step r = (r, Some e) \<and> messageOrString e = Inr m)"
  using pause_ends_step [OF assms(1), of env r] assms(2)
  by (subst (1 2) codeAssistLoop.simps) auto



lemma codeAssistStep_close:
  assumes "oauthCloseCalled r \<longrightarrow> completed r"
    and "codeAssistStep env options step r = Continue r' \<or> codeAssistStep env options step r = Break r'"
  shows "oauthCloseCalled r' \<longrightarrow> completed r'"
  using assms
  apply (simp add: codeAssistStep_def Let_def oauthCloseCalled_def
         split: option.splits prod.splits sum.splits list.splits if_splits)
  apply (auto dest!: runToolCalls_props)
  done

lemma codeAssistStep_closed:
  assumes "completed r \<longrightarrow> oauthCloseCalled r"
  shows "completed (runOf (codeAssistStep env options step r))
           \<longrightarrow> oauthCloseCalled (runOf (codeAssistStep env options step r))"
  using assms
  apply (simp add: codeAssistStep_def Let_def oauthCloseCalled_def
         split: option.splits prod.splits sum.splits list.splits if_splits)
  apply (auto dest!: runToolCalls_props)
  done

lemma codeAssistLoop_close:
  "oauthCloseCalled r \<longrightarrow> completed r \<Longrightarrow> codeAssistLoop env options M step r = (r', None) \<Longrightarrow>
     oauthCloseCalled r' \<longrightarrow> completed r'"
proof (induction env options M step r rule: codeAssistLoop.induct)
  case (1 env options M step r)
  show ?case
  proof (cases "int step < M \<and> \<not> completed r")
    case False
    with 1(3) have "r' = r" by (subst (asm) codeAssistLoop.simps) simp
    with 1(2) show ?thesis by simp
  next
    case True
    show ?thesis
    proof (cases "codeAssistStep env options step r")
      case (Continue r1)
      from codeAssistStep_close [OF 1(2), of env options step r1] Continue
      have i: "oauthCloseCalled r1 \<longrightarrow> completed r1" by simp
      from 1(3) True Continue have "codeAssistLoop env options M (Suc step) r1 = (r', None)"
        by (subst (asm) codeAssistLoop.simps) simp
      from 1(1) [OF True Continue i this] show ?thesis .
    next
      case (Break r1)
      from codeAssistStep_close [OF 1(2), of env options step r1] Break
      have i: "oauthCloseCalled r1 \<longrightarrow> completed r1" by simp
      from 1(3) True Break have "r' = r1" by (subst (asm) codeAssistLoop.simps) simp
      with i show ?thesis by simp
    next
      case (Throw r1 e)
      with 1(3) True show ?thesis by (subst (asm) codeAssistLoop.simps) simp
    qed
  qed
qed

lemma codeAssistLoop_closed:
  "completed r \<longrightarrow> oauthCloseCalled r \<Longrightarrow>
     completed (fst (codeAssistLoop env options M step r))
       \<longrightarrow> oauthCloseCalled (fst (codeAssistLoop env options M step r))"
proof (induction env options M step r rule: codeAssistLoop.induct)
  case (1 env options M step r)
  show ?case
  proof (cases "int step < M \<and> \<not> completed r")
    case False
    with 1(2) show ?thesis by (subst (1 2) codeAssistLoop.simps) auto
  next
    case True
    from codeAssistStep_closed [OF 1(2), of env options step]
    have i: "completed (runOf (codeAssistStep env options step r))
               \<longrightarrow> oauthCloseCalled (runOf (codeAssistStep env options step r))" .
    show ?thesis
    proof (cases "codeAssistStep env options step r")
      case (Continue r1)
      with i have "completed r1 \<longrightarrow> oauthCloseCalled r1" by simp
      from 1(1) [OF True Continue this] True Continue show ?thesis
        by (subst (1 2) codeAssistLoop.simps) simp
    next
      case (Break r1)
      with i True show ?thesis by (subst (1 2) codeAssistLoop.simps) simp
    next
      case (Throw r1 e)
      with i True show ?thesis by (subst (1 2) codeAssistLoop.simps) simp
    qed
  qed
qed

section \<open>The AI SDK loop, step by step\<close>

lemma stepHandler_frame:
  assumes "stepHandler env options event r = (r', thrown)"
  shows "modelCalls r' = modelCalls r \<and> stepNumber r' = Suc (stepNumber r)
         \<and> (thrown \<noteq> None \<longrightarrow> actions r' = actions r \<and> completed r' = completed r)
         \<and> (thrown = None \<longrightarrow> completed r' = (completed r \<or> sdkCallsClose event))
         \<and> (thrown \<noteq> None) = (pauseCheck options (stepNumber r) \<noteq> None)"
  using assms
  by (auto simp: stepHandler_def Let_def handleToolCalls_frame sdkCallsClose_def
           split: option.splits prod.splits sum.splits if_splits)

lemma stepHandler_pause:
  assumes "pauseCheck options (stepNumber r) = Some (e, readMessage e)"
  shows "\<exists>r' e'. stepHandler env options event r = (r', Some e') \<and> actions r' = actions r
           \<and> (case readMessage e of Inl typeError \<Rightarrow> e' = typeError | Inr m \<Rightarrow> e' = e)"
  using assms by (auto simp: stepHandler_def Let_def split: sum.splits)

lemma generateTextAfter_loop:
  "generateTextAfter env options M steps r n = Some (steps', r') \<Longrightarrow>
     generateText env options M steps r = generateText env options M steps' r'
     \<and> length steps' = length steps + n \<and> stepNumber r' = stepNumber r + n"
proof (induction n arbitrary: steps r)
  case 0
  then show ?case by simp
next
  case (Suc n)
  from Suc.prems obtain event r1 where e: "sdkStep env (length steps) = Inr event"
    and h: "stepHandler env options event (r\<lparr>modelCalls := Suc (modelCalls r)\<rparr>) = (r1, None)"
    and g: "\<not> (toolCalls event = [] \<or> handleStop (steps @ [event]) M)"
    and a: "generateTextAfter env options M (steps @ [event]) r1 n = Some (steps', r')"
    by (auto split: sum.splits prod.splits option.splits if_splits)
  from stepHandler_frame [OF h] have sn: "stepNumber r1 = Suc (stepNumber r)" by simp
  from Suc.IH [OF a] e h g sn show ?case
    by (subst generateText.simps) simp
qed

lemma generateText_bounded:
  "int (length steps) < M \<Longrightarrow>
     \<exists>r' out. generateText env options M steps r = Some (r', out)
        \<and> modelCalls r' \<le> modelCalls r + (nat M - length steps)"
proof (induction "nat M - length steps" arbitrary: steps r)
  case 0
  then show ?case by simp
next
  case (Suc d)
  show ?case
  proof (cases "sdkStep env (length steps)")
    case (Inl e)
    with Suc.prems Suc.hyps(2) show ?thesis
      by (subst generateText.simps) simp
  next
    case (Inr event)
    obtain r1 thrown where
      h: "stepHandler env options event (r\<lparr>modelCalls := Suc (modelCalls r)\<rparr>) = (r1, thrown)"
      by (cases "stepHandler env options event (r\<lparr>modelCalls := Suc (modelCalls r)\<rparr>)")
    from stepHandler_frame [OF h]
    have m: "modelCalls r1 = Suc (modelCalls r)" by simp
    show ?thesis
    proof (cases "thrown = None \<and> \<not> (toolCalls event = [] \<or> handleStop (steps @ [event]) M)")
      case False
      with Inr h m Suc.prems(1) Suc.hyps(2) show ?thesis
        by (subst generateText.simps) (auto split: option.splits)
    next
      case True
      then have "\<not> stepCountIs M (steps @ [event])"
        by (auto simp: handleStop_def split: if_splits)
      with Suc.prems(1) have lt: "int (length (steps @ [event])) < M"
        by (simp add: stepCountIs_def)
      from Suc.hyps(2) have d: "d = nat M - length (steps @ [event])" by simp
      from Suc.hyps(1) [OF d lt] obtain r' out where
        g: "generateText env options M (steps @ [event]) r1 = Some (r', out)"
        and b: "modelCalls r' \<le> modelCalls r1 + (nat M - length (steps @ [event]))"
        by blast
      from Inr h True g b m Suc.hyps(2) show ?thesis
        by (subst generateText.simps) auto
    qed
  qed
qed

lemma generateText_close:
  assumes "generateText env options M steps r = Some y"
  shows "modelCalls r = length steps \<longrightarrow>
           (completed r = list_ex (closeAt env) [0..<length steps]) \<longrightarrow>
           (\<forall>r' tx. y = (r', Inr tx) \<longrightarrow>
              completed r' = list_ex (closeAt env) [0..<modelCalls r'])"
    (is "?P env options M steps r y")
proof (rule generateText.raw_induct [where P = ?P, OF _ assms])
  fix f env options M steps r y
  assume IH: "\<And>env options M steps r y. f env options M steps r = Some y \<Longrightarrow> ?P env options M steps r y"
    and eq: "(case sdkStep env (length steps) of
        Inl e \<Rightarrow> Some (r\<lparr>modelCalls := Suc (modelCalls r)\<rparr>, Inl e)
      | Inr event \<Rightarrow>
          (case stepHandler env options event (r\<lparr>modelCalls := Suc (modelCalls r)\<rparr>) of
             (r', None) \<Rightarrow>
               if toolCalls event = [] \<or> handleStop (steps @ [event]) M
               then Some (r', Inr (stepText event))
               else f env options M (steps @ [event]) r'
           | (r', Some e) \<Rightarrow> Some (r', Inl e))) = Some y"
  show "?P env options M steps r y"
  proof (intro impI allI)
    fix r' tx
    assume m: "modelCalls r = length steps"
      and n: "completed r = list_ex (closeAt env) [0..<length steps]"
      and y: "y = (r', Inr tx)"
    show "completed r' = list_ex (closeAt env) [0..<modelCalls r']"
    proof (cases "sdkStep env (length steps)")
      case (Inl e)
      with eq y show ?thesis by simp
    next
      case (Inr event)
      obtain r1 thrown where
        h: "stepHandler env options event (r\<lparr>modelCalls := Suc (modelCalls r)\<rparr>) = (r1, thrown)"
        by (cases "stepHandler env options event (r\<lparr>modelCalls := Suc (modelCalls r)\<rparr>)")
      from stepHandler_frame [OF h] m
      have m1: "modelCalls r1 = Suc (length steps)"
        and c1: "thrown = None \<longrightarrow> completed r1 = (completed r \<or> sdkCallsClose event)"
        by simp_all
      show ?thesis
      proof (cases thrown)
        case (Some e)
        with eq y Inr h show ?thesis by simp
      next
        case None
        from c1 None n Inr
        have n1: "completed r1 = list_ex (closeAt env) [0..<length (steps @ [event])]"
          by (simp add: closeAt_def)
        show ?thesis
        proof (cases "toolCalls event = [] \<or> handleStop (steps @ [event]) M")
          case True
          with eq y Inr h None have "r' = r1" by simp
          with n1 m1 show ?thesis by simp
        next
          case False
          with eq Inr h None have f: "f env options M (steps @ [event]) r1 = Some y" by simp
          from IH [OF f] m1 n1 y show ?thesis by simp
        qed
      qed
    qed
  qed
qed

lemma prepareAgent_ctx:
  assumes "prepareAgent env io = Inr ctx"
  shows "ctxOptions ctx = resolveOptions io"
    and "ctxMaxSteps ctx = effectiveMaxSteps (resolveOptions io)"
    and "messages ctx
           = [\<lparr>msgRole = User, msgContent = Text (instruction (resolveOptions io)),
               msgToolCalls = []\<rparr>]"
  using assms by (auto simp: prepareAgent_def Let_def split: if_splits sum.splits)

lemma execute_Inr:
  assumes "prepareAgent env io = Inr ctx" and "execute env io = Some (Inr (r, result))"
  shows "executeTry env ctx = Some (r, Inr result)
         \<or> (\<exists>e. executeTry env ctx = Some (r, Inl e) \<and> catchBlock r e = Inr result)"
  using assms by (auto simp: execute_def split: option.splits sum.splits prod.splits)

lemma catchBlock_result:
  "catchBlock r e = Inr result \<Longrightarrow> \<not> success result \<and> \<not> resultCompleted result"
  by (auto simp: catchBlock_def split: sum.splits)

text \<open>The run of either backend, when it returns a result: \<open>success\<close> and \<open>completed\<close>
  of the result are \<open>completed\<close> of the state, which is true exactly when some step's
  tool calls included \<^verbatim>\<open>close\<close>.\<close>

lemma executeTry_result:
  assumes "prepareAgent env io = Inr ctx" and "executeTry env ctx = Some (r, Inr result)"
  shows "success result = resultCompleted result \<and> resultCompleted result = closeCalled env r"
proof (cases "oauthMode env")
  case True
  let ?r0 = "(initialRun (initialPageUrl ctx))
               \<lparr>chatMessages :=
                  \<lparr>msgRole = System, msgContent = Text (systemPrompt ctx), msgToolCalls = []\<rparr>
                  # messages ctx\<rparr>"
  obtain r1 thrown where
    l: "codeAssistLoop env (ctxOptions ctx) (ctxMaxSteps ctx) 0 ?r0 = (r1, thrown)"
    by (cases "codeAssistLoop env (ctxOptions ctx) (ctxMaxSteps ctx) 0 ?r0")
  from assms(2) True l have t: "thrown = None"
    by (cases thrown) (simp_all add: executeTry_def executeWithCodeAssist_def Let_def)
  from assms(2) True l t
  have r: "chatMessages r = chatMessages r1" "completed r = completed r1"
    and res: "success result = completed r1" "resultCompleted result = completed r1"
    by (auto simp: executeTry_def executeWithCodeAssist_def Let_def split: if_splits)
  have n: "\<not> oauthCloseCalled ?r0"
    by (simp add: oauthCloseCalled_def prepareAgent_ctx(3) [OF assms(1)])
  then have "oauthCloseCalled ?r0 \<longrightarrow> completed ?r0" by simp
  from codeAssistLoop_close [OF this] l t have a: "oauthCloseCalled r1 \<longrightarrow> completed r1" by simp
  have "completed ?r0 \<longrightarrow> oauthCloseCalled ?r0" by (simp add: initialRun_def)
  from codeAssistLoop_closed [OF this, of env "ctxOptions ctx" "ctxMaxSteps ctx" 0] l
  have b: "completed r1 \<longrightarrow> oauthCloseCalled r1" by simp
  from a b r res True show ?thesis
    by (auto simp: closeCalled_def oauthCloseCalled_def)
next
  case False
  from assms(2) False obtain rg tx where
    g: "generateText env (ctxOptions ctx) (ctxMaxSteps ctx) [] (initialRun (initialPageUrl ctx))
          = Some (rg, Inr tx)"
    and c: "consolidateMetricsAndResult env rg tx (sdkUsage env) = (r, result)"
    by (auto simp: executeTry_def Let_def split: option.splits sum.splits prod.splits)
  from c have r: "modelCalls r = modelCalls rg" "completed r = completed rg"
    and res: "success result = completed rg" "resultCompleted result = completed rg"
    by (auto simp: consolidateMetricsAndResult_def Let_def split: if_splits)
  from generateText_close [OF g]
  have "completed rg = list_ex (closeAt env) [0..<modelCalls rg]"
    by (simp add: initialRun_def)
  with r res False show ?thesis
    by (simp add: closeCalled_def)
qed

section \<open>Completion and success\<close>

text \<open>C1, as the claim has it, fails: \<open>success\<close> does not depend on \<^verbatim>\<open>taskComplete\<close>.
  A run whose model calls \<^verbatim>\<open>close\<close> with \<^verbatim>\<open>taskComplete: false\<close> returns
  \<open>completed\<close> and \<open>success\<close> both true, with the message of a task that could not be
  completed.\<close>

theorem close_without_taskComplete_succeeds:
  "map_option
     (map_sum id (\<lambda>(r, result). (resultCompleted result, success result, message result)))
     (execute (closingHandlerEnv False) (Instruction ''open example.com and close''))
   = Some (Inr (True, True, ''Task could not be completed''))"
  by code_simp

text \<open>C1, amended: in every result that \<^verbatim>\<open>execute\<close> returns, \<open>success\<close> is
  \<open>completed\<close>; and when the run of the backend ends without throwing, \<^verbatim>\<open>execute\<close>
  returns its result, in which both are true if some step's tool calls included
  \<^verbatim>\<open>close\<close>, whatever \<^verbatim>\<open>taskComplete\<close> was, and both are false if none did.\<close>

theorem close_completes_and_succeeds:
  "(\<forall>r result. execute env io = Some (Inr (r, result))
      \<longrightarrow> success result = resultCompleted result)
   \<and> (\<forall>ctx r result.
         prepareAgent env io = Inr ctx \<and> executeTry env ctx = Some (r, Inr result)
       \<longrightarrow> execute env io = Some (Inr (r, result))
           \<and> resultCompleted result = closeCalled env r
           \<and> success result = closeCalled env r)"
proof (intro conjI allI impI)
  fix r result
  assume e: "execute env io = Some (Inr (r, result))"
  then obtain ctx where p: "prepareAgent env io = Inr ctx"
    by (cases "prepareAgent env io") (auto simp: execute_def)
  from execute_Inr [OF p e] show "success result = resultCompleted result"
    using executeTry_result [OF p] catchBlock_result by blast
next
  fix ctx r result
  assume h: "prepareAgent env io = Inr ctx \<and> executeTry env ctx = Some (r, Inr result)"
  then have p: "prepareAgent env io = Inr ctx" and t: "executeTry env ctx = Some (r, Inr result)"
    by simp_all
  from p t show "execute env io = Some (Inr (r, result))" by (simp add: execute_def)
  from executeTry_result [OF p t] show "resultCompleted result = closeCalled env r" by simp
  from executeTry_result [OF p t] show "success result = closeCalled env r" by simp
qed

theorem close_completes_and_succeeds_witness:
  "map_option
     (map_sum id (\<lambda>(r, result). (closeCalled (closingHandlerEnv False) r,
                                  resultCompleted result, success result)))
     (execute (closingHandlerEnv False) (Instruction ''open example.com and close''))
   = Some (Inr (True, True, True))
   \<and> map_option
     (map_sum id (\<lambda>(r, result). (closeCalled closingSdkEnv r,
                                  resultCompleted result, success result)))
     (execute closingSdkEnv (Instruction ''open example.com and close''))
   = Some (Inr (True, True, True))
   \<and> map_option
     (map_sum id (\<lambda>(r, result). (resultCompleted result, success result)))
     (execute failingProviderEnv (Options watchedOptions))
   = Some (Inr (False, False))"
proof -
  have onOAuth:
    "map_option
     (map_sum id (\<lambda>(r, result). (closeCalled (closingHandlerEnv False) r,
                                  resultCompleted result, success result)))
     (execute (closingHandlerEnv False) (Instruction ''open example.com and close''))
   = Some (Inr (True, True, True))"
  proof -
    let ?env = "closingHandlerEnv False"
    let ?io = "Instruction ''open example.com and close''"
    let ?ctx = "projr (prepareAgent ?env ?io)"
    have p: "prepareAgent ?env ?io = Inr ?ctx"
      by (simp add: prepareAgent_def closingHandlerEnv_def idleHandlerEnv_def Let_def)
    have "map_option (\<lambda>(r, out). (closeCalled ?env r, isl out)) (executeTry ?env ?ctx)
            = Some (True, False)"
      by code_simp
    then obtain r out where t: "executeTry ?env ?ctx = Some (r, out)"
      and c: "closeCalled ?env r" and o: "\<not> isl out"
      by (cases "executeTry ?env ?ctx") auto
    from o obtain result where "out = Inr result" by (cases out) auto
    with t have t': "executeTry ?env ?ctx = Some (r, Inr result)" by simp
    from close_completes_and_succeeds [of ?env ?io] p t' c show ?thesis by simp
  qed
  have onSdk:
    "map_option
     (map_sum id (\<lambda>(r, result). (closeCalled closingSdkEnv r,
                                  resultCompleted result, success result)))
     (execute closingSdkEnv (Instruction ''open example.com and close''))
   = Some (Inr (True, True, True))"
  proof -
    let ?env = "closingSdkEnv"
    let ?io = "Instruction ''open example.com and close''"
    let ?ctx = "projr (prepareAgent ?env ?io)"
    have p: "prepareAgent ?env ?io = Inr ?ctx"
      by (simp add: prepareAgent_def closingSdkEnv_def restlessSdkEnv_def restlessEnv_def
            twoToolsEnv_def idleHandlerEnv_def Let_def)
    have "map_option (\<lambda>(r, out). (closeCalled ?env r, isl out)) (executeTry ?env ?ctx)
            = Some (True, False)"
      by code_simp
    then obtain r out where t: "executeTry ?env ?ctx = Some (r, out)"
      and c: "closeCalled ?env r" and o: "\<not> isl out"
      by (cases "executeTry ?env ?ctx") auto
    from o obtain result where "out = Inr result" by (cases out) auto
    with t have t': "executeTry ?env ?ctx = Some (r, Inr result)" by simp
    from close_completes_and_succeeds [of ?env ?io] p t' c show ?thesis by simp
  qed
  have failed:
    "map_option
     (map_sum id (\<lambda>(r, result). (resultCompleted result, success result)))
     (execute failingProviderEnv (Options watchedOptions))
   = Some (Inr (False, False))"
  proof -
    let ?env = "failingProviderEnv"
    let ?io = "Options watchedOptions"
    have "map_option (map_sum id (\<lambda>(r, result). resultCompleted result)) (execute ?env ?io)
            = Some (Inr False)"
      by code_simp
    then obtain r result where e: "execute ?env ?io = Some (Inr (r, result))"
      and c: "\<not> resultCompleted result"
      by (cases "execute ?env ?io") (auto simp: map_sum_def split: sum.splits)
    from close_completes_and_succeeds [of ?env ?io] e c show ?thesis by simp
  qed
  from onOAuth onSdk failed show ?thesis by blast
qed

section \<open>Runs that never call close\<close>

lemma restless_never_ends:
  assumes "generateText env options M steps r = Some y"
  shows "env = restlessSdkEnv \<and> options = minusOneOptions \<and> M = - 1 \<longrightarrow> False"
    (is "?P env options M steps r y")
proof (rule generateText.raw_induct [where P = ?P, OF _ assms])
  fix f env options M steps r y
  assume IH: "\<And>env options M steps r y. f env options M steps r = Some y \<Longrightarrow> ?P env options M steps r y"
    and eq: "(case sdkStep env (length steps) of
        Inl e \<Rightarrow> Some (r\<lparr>modelCalls := Suc (modelCalls r)\<rparr>, Inl e)
      | Inr event \<Rightarrow>
          (case stepHandler env options event (r\<lparr>modelCalls := Suc (modelCalls r)\<rparr>) of
             (r', None) \<Rightarrow>
               if toolCalls event = [] \<or> handleStop (steps @ [event]) M
               then Some (r', Inr (stepText event))
               else f env options M (steps @ [event]) r'
           | (r', Some e) \<Rightarrow> Some (r', Inl e))) = Some y"
  show "?P env options M steps r y"
  proof
    assume h: "env = restlessSdkEnv \<and> options = minusOneOptions \<and> M = - 1"
    then have s: "sdkStep env (length steps) = Inr gotoStep"
      by (simp add: restlessSdkEnv_def)
    obtain r1 thrown where
      st: "stepHandler env options gotoStep (r\<lparr>modelCalls := Suc (modelCalls r)\<rparr>) = (r1, thrown)"
      by (cases "stepHandler env options gotoStep (r\<lparr>modelCalls := Suc (modelCalls r)\<rparr>)")
    from h have "pauseCheck options (stepNumber (r\<lparr>modelCalls := Suc (modelCalls r)\<rparr>)) = None"
      by (simp add: pauseCheck_def minusOneOptions_def)
    with stepHandler_frame [OF st] have t: "thrown = None" by simp
    from h have g: "\<not> (toolCalls gotoStep = [] \<or> handleStop (steps @ [gotoStep]) M)"
      by (simp add: gotoStep_def handleStop_def stepCountIs_def)
    from eq s st t g have "f env options M (steps @ [gotoStep]) r1 = Some y" by simp
    from IH [OF this] h show False by simp
  qed
qed

text \<open>C4, as the claim has it, fails for a step ceiling that is negative.  With
  \<^verbatim>\<open>maxSteps: -1\<close> the ceiling is -1.  On the OAuth backend the loop invokes the model
  0 times, which is more than the ceiling.  On the AI SDK backend a model that calls
  \<^verbatim>\<open>goto\<close> in every step and never \<^verbatim>\<open>close\<close> has been invoked 30 times after 30
  steps, the iteration going on, and \<^verbatim>\<open>execute\<close> never returns: the count of steps is
  never equal to -1.\<close>

theorem negative_maxSteps_is_no_ceiling:
  "effectiveMaxSteps (resolveOptions (Options minusOneOptions)) = - 1
   \<and> map_option
       (map_sum id (\<lambda>(r, result). (modelCalls r,
                                    int (modelCalls r)
                                      \<le> effectiveMaxSteps (resolveOptions (Options minusOneOptions)))))
       (execute restlessEnv (Options minusOneOptions))
     = Some (Inr (0, False))
   \<and> map_option (\<lambda>(steps, r). (modelCalls r, completed r, closeCalled restlessSdkEnv r))
       (generateTextAfter restlessSdkEnv minusOneOptions (- 1) [] (initialRun ''about:blank'') 30)
     = Some (30, False, False)
   \<and> execute restlessSdkEnv (Options minusOneOptions) = None"
proof -
  have a: "effectiveMaxSteps (resolveOptions (Options minusOneOptions)) = - 1"
    by (simp add: effectiveMaxSteps_def resolveOptions_def minusOneOptions_def)
  have b: "map_option
       (map_sum id (\<lambda>(r, result). (modelCalls r,
                                    int (modelCalls r)
                                      \<le> effectiveMaxSteps (resolveOptions (Options minusOneOptions)))))
       (execute restlessEnv (Options minusOneOptions))
     = Some (Inr (0, False))"
    by code_simp
  have c: "map_option (\<lambda>(steps, r). (modelCalls r, completed r, closeCalled restlessSdkEnv r))
       (generateTextAfter restlessSdkEnv minusOneOptions (- 1) [] (initialRun ''about:blank'') 30)
     = Some (30, False, False)"
    by code_simp
  have p: "prepareAgent restlessSdkEnv (Options minusOneOptions)
             = Inr \<lparr>ctxOptions = minusOneOptions, ctxMaxSteps = - 1,
                    systemPrompt = buildSystemPrompt (instruction minusOneOptions) None,
                    messages = [\<lparr>msgRole = User, msgContent = Text (instruction minusOneOptions),
                                 msgToolCalls = []\<rparr>],
                    initialPageUrl = ''about:blank''\<rparr>"
    by (simp add: prepareAgent_def restlessSdkEnv_def restlessEnv_def twoToolsEnv_def
          idleHandlerEnv_def Let_def resolveOptions_def effectiveMaxSteps_def minusOneOptions_def)
  have g: "generateText restlessSdkEnv minusOneOptions (- 1) [] (initialRun ''about:blank'') = None"
    using restless_never_ends [of restlessSdkEnv minusOneOptions "- 1" "[]" "initialRun ''about:blank''"]
    by (cases "generateText restlessSdkEnv minusOneOptions (- 1) [] (initialRun ''about:blank'')")
       auto
  have o: "\<not> oauthMode restlessSdkEnv" by (simp add: restlessSdkEnv_def)
  have d: "execute restlessSdkEnv (Options minusOneOptions) = None"
    unfolding execute_def p using g o by (simp add: executeTry_def)
  from a b c d show ?thesis by blast
qed

text \<open>C4, amended: when the step ceiling the caller gave, if any, is not negative, the
  run of the backend ends, having invoked the model at most \<open>maxSteps\<close> times (at most
  20 times when the caller gave no \<open>maxSteps\<close>, or gave 0), and \<^verbatim>\<open>execute\<close> returns;
  when it returns a result and no step of the run called \<^verbatim>\<open>close\<close>, the result has
  \<open>completed\<close> false.\<close>

theorem no_close_stops_at_maxSteps:
  assumes "prepareAgent env io = Inr ctx"
    and "case maxSteps (resolveOptions io) of None \<Rightarrow> True | Some n \<Rightarrow> 0 \<le> n"
  shows "\<exists>r out. executeTry env ctx = Some (r, out)
           \<and> int (modelCalls r) \<le> effectiveMaxSteps (resolveOptions io)
           \<and> (maxSteps (resolveOptions io) = None \<or> maxSteps (resolveOptions io) = Some 0
                \<longrightarrow> modelCalls r \<le> 20)
           \<and> (\<exists>res. execute env io = Some res)
           \<and> (\<forall>r' result. execute env io = Some (Inr (r', result))
                \<longrightarrow> r' = r \<and> (\<not> closeCalled env r \<longrightarrow> \<not> resultCompleted result))"
proof -
  let ?M = "ctxMaxSteps ctx"
  let ?options = "ctxOptions ctx"
  from prepareAgent_ctx(2) [OF assms(1)] have M: "?M = effectiveMaxSteps (resolveOptions io)" .
  from assms(2) have pos: "0 < ?M"
    unfolding M by (auto simp: effectiveMaxSteps_def split: option.splits)
  have "\<exists>r out. executeTry env ctx = Some (r, out) \<and> modelCalls r \<le> nat ?M"
  proof (cases "oauthMode env")
    case True
    let ?r0 = "(initialRun (initialPageUrl ctx))
                 \<lparr>chatMessages :=
                    \<lparr>msgRole = System, msgContent = Text (systemPrompt ctx), msgToolCalls = []\<rparr>
                    # messages ctx\<rparr>"
    obtain r1 thrown where l: "codeAssistLoop env ?options ?M 0 ?r0 = (r1, thrown)"
      by (cases "codeAssistLoop env ?options ?M 0 ?r0")
    from codeAssistLoop_bound [of env ?options ?M 0 ?r0] l
    have b: "modelCalls r1 \<le> nat ?M"
      by (simp add: initialRun_def)
    from True l b show ?thesis
      by (cases thrown) (auto simp: executeTry_def executeWithCodeAssist_def Let_def)
  next
    case False
    from pos have "int (length ([] :: StepResult list)) < ?M" by simp
    from generateText_bounded [OF this, of env ?options "initialRun (initialPageUrl ctx)"]
    obtain rg out where
      g: "generateText env ?options ?M [] (initialRun (initialPageUrl ctx)) = Some (rg, out)"
      and b: "modelCalls rg \<le> nat ?M"
      by (auto simp: initialRun_def)
    from False g b show ?thesis
      by (cases out) (auto simp: executeTry_def consolidateMetricsAndResult_def Let_def)
  qed
  then obtain r out where t: "executeTry env ctx = Some (r, out)"
    and b: "modelCalls r \<le> nat ?M"
    by blast
  from b pos have b1: "int (modelCalls r) \<le> effectiveMaxSteps (resolveOptions io)"
    unfolding M [symmetric] by simp
  from b M have b2: "maxSteps (resolveOptions io) = None \<or> maxSteps (resolveOptions io) = Some 0
                       \<longrightarrow> modelCalls r \<le> 20"
    by (auto simp: effectiveMaxSteps_def)
  from t assms(1) have ex: "\<exists>res. execute env io = Some res"
    by (auto simp: execute_def split: sum.splits)
  have res: "\<forall>r' result. execute env io = Some (Inr (r', result))
                \<longrightarrow> r' = r \<and> (\<not> closeCalled env r \<longrightarrow> \<not> resultCompleted result)"
  proof (intro allI impI)
    fix r' result
    assume e: "execute env io = Some (Inr (r', result))"
    from execute_Inr [OF assms(1) e] t have r': "r' = r" by auto
    from execute_Inr [OF assms(1) e] executeTry_result [OF assms(1)] catchBlock_result
    have "\<not> closeCalled env r' \<longrightarrow> \<not> resultCompleted result" by blast
    with r' show "r' = r \<and> (\<not> closeCalled env r \<longrightarrow> \<not> resultCompleted result)" by simp
  qed
  from t b1 b2 ex res show ?thesis by blast
qed

theorem no_close_stops_at_maxSteps_witness:
  "map_option
     (map_sum id (\<lambda>(r, result). (modelCalls r, closeCalled restlessEnv r, resultCompleted result)))
     (execute restlessEnv (Options threeStepOptions))
   = Some (Inr (3, False, False))
   \<and> map_option
       (map_sum id (\<lambda>(r, result). (modelCalls r, closeCalled restlessSdkEnv r,
                                    resultCompleted result)))
       (execute restlessSdkEnv (Options threeStepOptions))
     = Some (Inr (3, False, False))"
proof -
  have onOAuth:
    "map_option
     (map_sum id (\<lambda>(r, result). (modelCalls r, closeCalled restlessEnv r, resultCompleted result)))
     (execute restlessEnv (Options threeStepOptions))
   = Some (Inr (3, False, False))"
  proof -
    let ?io = "Options threeStepOptions"
    let ?ctx = "projr (prepareAgent restlessEnv ?io)"
    have p: "prepareAgent restlessEnv ?io = Inr ?ctx"
      by (simp add: prepareAgent_def restlessEnv_def twoToolsEnv_def idleHandlerEnv_def Let_def)
    have m: "case maxSteps (resolveOptions ?io) of None \<Rightarrow> True | Some n \<Rightarrow> 0 \<le> n"
      by (simp add: resolveOptions_def threeStepOptions_def)
    have v: "map_option
       (map_sum id (\<lambda>(r, result). (modelCalls r, closeCalled restlessEnv r)))
       (execute restlessEnv (Options threeStepOptions))
     = Some (Inr (3, False))"
      by code_simp
    then obtain r result where e: "execute restlessEnv ?io = Some (Inr (r, result))"
      and c: "modelCalls r = 3" "\<not> closeCalled restlessEnv r"
      by (cases "execute restlessEnv ?io") (auto simp: map_sum_def split: sum.splits)
    from no_close_stops_at_maxSteps [OF p m] e c show ?thesis by auto
  qed
  have onSdk:
    "map_option
       (map_sum id (\<lambda>(r, result). (modelCalls r, closeCalled restlessSdkEnv r,
                                    resultCompleted result)))
       (execute restlessSdkEnv (Options threeStepOptions))
     = Some (Inr (3, False, False))"
  proof -
    let ?io = "Options threeStepOptions"
    let ?ctx = "projr (prepareAgent restlessSdkEnv ?io)"
    have p: "prepareAgent restlessSdkEnv ?io = Inr ?ctx"
      by (simp add: prepareAgent_def restlessSdkEnv_def restlessEnv_def twoToolsEnv_def
            idleHandlerEnv_def Let_def)
    have m: "case maxSteps (resolveOptions ?io) of None \<Rightarrow> True | Some n \<Rightarrow> 0 \<le> n"
      by (simp add: resolveOptions_def threeStepOptions_def)
    have v: "map_option
       (map_sum id (\<lambda>(r, result). (modelCalls r, closeCalled restlessSdkEnv r)))
       (execute restlessSdkEnv (Options threeStepOptions))
     = Some (Inr (3, False))"
      by code_simp
    then obtain r result where e: "execute restlessSdkEnv ?io = Some (Inr (r, result))"
      and c: "modelCalls r = 3" "\<not> closeCalled restlessSdkEnv r"
      by (cases "execute restlessSdkEnv ?io") (auto simp: map_sum_def split: sum.splits)
    from no_close_stops_at_maxSteps [OF p m] e c show ?thesis by auto
  qed
  show ?thesis by (rule conjI [OF onOAuth onSdk])
qed

section \<open>Errors thrown during the run\<close>






section \<open>A rejected pause check\<close>

lemma unrenderable_has_message_read:
  "messageOrString e = Inl typeError \<Longrightarrow> \<exists>m. readMessage e = Inr m"
  by (cases e) auto

text \<open>C6, as the claim has it, fails on the AI SDK backend for a rejection with a value
  that cannot be rendered: the step handler throws the rejection again, it reaches the
  \<^verbatim>\<open>catch\<close> of \<^verbatim>\<open>execute\<close>, and the \<^verbatim>\<open>catch\<close> throws a \<^verbatim>\<open>TypeError\<close>.  Here the
  pause check rejects at the second step, after a first step that appended an action.\<close>

theorem unrenderable_pause_rejection_escapes:
  "map_option (\<lambda>r. map atype (actions r))
     (stateBeforeStep restlessSdkEnv
        (projr (prepareAgent restlessSdkEnv (Options unprintablePause))) 1)
   = Some [''goto'']
   \<and> execute restlessSdkEnv (Options unprintablePause)
     = Some (Inl (cannotConvert))"
  by code_simp

text \<open>C6, amended: when step \<open>k\<close> begins in state \<open>r\<close> (the steps before it have
  finished) and the pause check of that step rejects, then on the OAuth backend, and on
  the AI SDK backend if the rejection is a value that can be rendered, \<^verbatim>\<open>execute\<close>
  returns a result, no value escapes it, the result has \<open>completed\<close> false, and its
  actions are those of \<open>r\<close>: the actions accumulated in the steps that finished
  before.  On the AI SDK backend a rejection that cannot be rendered makes \<^verbatim>\<open>execute\<close>
  throw the \<^verbatim>\<open>TypeError\<close> of the rendering.\<close>

theorem pause_rejection_returns_partial_result:
  assumes "prepareAgent env io = Inr ctx"
    and "stateBeforeStep env ctx k = Some r" and "stepBegins env ctx k r"
    and "checkPauseState (ctxOptions ctx) = Some check" and "check k = Some e"
  shows "(oauthMode env \<or> (\<exists>m. messageOrString e = Inr m)
            \<longrightarrow> (\<exists>r' result. execute env io = Some (Inr (r', result))
                    \<and> \<not> resultCompleted result \<and> resultActions result = actions r))
         \<and> (\<forall>typeError. \<not> oauthMode env \<and> messageOrString e = Inl typeError
              \<longrightarrow> execute env io = Some (Inl typeError))"
proof -
  let ?M = "ctxMaxSteps ctx"
  let ?options = "ctxOptions ctx"
  from assms(4,5) have p: "pauseCheck ?options k = Some (e, readMessage e)"
    by (simp add: pauseCheck_def)
  show ?thesis
  proof (cases "oauthMode env")
    case True
    let ?r0 = "(initialRun (initialPageUrl ctx))
                 \<lparr>chatMessages :=
                    \<lparr>msgRole = System, msgContent = Text (systemPrompt ctx), msgToolCalls = []\<rparr>
                    # messages ctx\<rparr>"
    from assms(2) True have a: "codeAssistAfter env ?options ?M 0 ?r0 k = Some r"
      by (simp add: stateBeforeStep_def)
    from assms(3) True have g: "int k < ?M \<and> \<not> completed r" by (simp add: stepBegins_def)
    from codeAssistAfter_loop [OF a]
    have l: "codeAssistLoop env ?options ?M 0 ?r0 = codeAssistLoop env ?options ?M k r" by simp
    from pause_ends_loop [OF p g, of env]
    have "\<exists>r' result. execute env io = Some (Inr (r', result))
            \<and> \<not> resultCompleted result \<and> resultActions result = actions r"
    proof
      assume "codeAssistLoop env ?options ?M k r = (r, None)"
      with True l g assms(1) show ?thesis
        by (auto simp: execute_def executeTry_def executeWithCodeAssist_def Let_def)
    next
      assume "\<exists>e' m. codeAssistLoop env ?options ?M k r = (r, Some e') \<and> messageOrString e' = Inr m"
      with True l g assms(1) show ?thesis
        by (auto simp: execute_def executeTry_def executeWithCodeAssist_def Let_def
              catchBlock_def)
    qed
    with True show ?thesis by simp
  next
    case False
    from assms(2) False obtain steps where
      a: "generateTextAfter env ?options ?M [] (initialRun (initialPageUrl ctx)) k = Some (steps, r)"
      by (auto simp: stateBeforeStep_def)
    from generateTextAfter_loop [OF a]
    have l: "generateText env ?options ?M [] (initialRun (initialPageUrl ctx))
               = generateText env ?options ?M steps r"
      and n: "length steps = k" and sn: "stepNumber r = k"
      by (simp_all add: initialRun_def)
    from assms(3) False obtain event where ev: "sdkStep env k = Inr event"
      by (auto simp: stepBegins_def split: sum.splits)
    from p sn
    have "pauseCheck ?options (stepNumber (r\<lparr>modelCalls := Suc (modelCalls r)\<rparr>))
            = Some (e, readMessage e)"
      by simp
    from stepHandler_pause [OF this, of env event] obtain r1 e' where
      h: "stepHandler env ?options event (r\<lparr>modelCalls := Suc (modelCalls r)\<rparr>) = (r1, Some e')"
      and ac: "actions r1 = actions r"
      and e': "case readMessage e of Inl typeError \<Rightarrow> e' = typeError | Inr m \<Rightarrow> e' = e"
      by auto
    from ev h n have "generateText env ?options ?M steps r = Some (r1, Inl e')"
      by (subst generateText.simps) simp
    with l False have t: "executeTry env ctx = Some (r1, Inl e')"
      by (simp add: executeTry_def)
    have first: "(\<exists>m. messageOrString e = Inr m)
            \<longrightarrow> (\<exists>r' result. execute env io = Some (Inr (r', result))
                    \<and> \<not> resultCompleted result \<and> resultActions result = actions r)"
    proof
      assume "\<exists>m. messageOrString e = Inr m"
      with e' have "\<exists>m. messageOrString e' = Inr m"
        by (cases "readMessage e") (auto dest: readMessage_renderable)
      with t ac assms(1)
      show "\<exists>r' result. execute env io = Some (Inr (r', result))
                    \<and> \<not> resultCompleted result \<and> resultActions result = actions r"
        by (auto simp: execute_def catchBlock_def)
    qed
    have second: "\<forall>typeError. messageOrString e = Inl typeError
                    \<longrightarrow> execute env io = Some (Inl typeError)"
    proof (intro allI impI)
      fix typeError
      assume u: "messageOrString e = Inl typeError"
      from unrenderable_has_message_read [OF u] e' have "e' = e" by auto
      with t u assms(1) show "execute env io = Some (Inl typeError)"
        by (simp add: execute_def catchBlock_def)
    qed
    from first second False show ?thesis by simp
  qed
qed

theorem pause_rejection_returns_partial_result_witness:
  "map_option
     (map_sum id (\<lambda>(r, result). (resultCompleted result, map atype (resultActions result))))
     (execute restlessEnv (Options pauseAtSecondStep))
   = Some (Inr (False, [''goto'']))
   \<and> map_option
     (map_sum id (\<lambda>(r, result). (resultCompleted result, map atype (resultActions result))))
     (execute restlessSdkEnv (Options pauseAtSecondStep))
   = Some (Inr (False, [''goto'']))
   \<and> execute fillFormEnv (Options unprintablePause)
     = Some (Inl (cannotConvert))"
proof -
  have onOAuth:
    "map_option
     (map_sum id (\<lambda>(r, result). (resultCompleted result, map atype (resultActions result))))
     (execute restlessEnv (Options pauseAtSecondStep))
   = Some (Inr (False, [''goto'']))"
  proof -
    let ?io = "Options pauseAtSecondStep"
    let ?ctx = "projr (prepareAgent restlessEnv ?io)"
    let ?check = "\<lambda>k :: nat. if k = 1 then Some (JsError ''paused by the user'') else None"
    have p: "prepareAgent restlessEnv ?io = Inr ?ctx"
      by (simp add: prepareAgent_def restlessEnv_def twoToolsEnv_def idleHandlerEnv_def Let_def)
    have "case stateBeforeStep restlessEnv ?ctx 1 of
            Some r \<Rightarrow> stepBegins restlessEnv ?ctx 1 r \<and> map atype (actions r) = [''goto'']
          | None \<Rightarrow> False"
      by code_simp
    then obtain r where s: "stateBeforeStep restlessEnv ?ctx 1 = Some r"
      and b: "stepBegins restlessEnv ?ctx 1 r" and a: "map atype (actions r) = [''goto'']"
      by (auto split: option.splits)
    have c: "checkPauseState (ctxOptions ?ctx) = Some ?check"
      by (simp add: prepareAgent_def restlessEnv_def twoToolsEnv_def idleHandlerEnv_def Let_def
            resolveOptions_def pauseAtSecondStep_def)
    have k: "?check 1 = Some (JsError ''paused by the user'')" by simp
    have o: "oauthMode restlessEnv"
      by (simp add: restlessEnv_def twoToolsEnv_def idleHandlerEnv_def)
    from pause_rejection_returns_partial_result [OF p s b c k] o a show ?thesis by auto
  qed
  have onSdk:
    "map_option
     (map_sum id (\<lambda>(r, result). (resultCompleted result, map atype (resultActions result))))
     (execute restlessSdkEnv (Options pauseAtSecondStep))
   = Some (Inr (False, [''goto'']))"
  proof -
    let ?io = "Options pauseAtSecondStep"
    let ?ctx = "projr (prepareAgent restlessSdkEnv ?io)"
    let ?check = "\<lambda>k :: nat. if k = 1 then Some (JsError ''paused by the user'') else None"
    have p: "prepareAgent restlessSdkEnv ?io = Inr ?ctx"
      by (simp add: prepareAgent_def restlessSdkEnv_def restlessEnv_def twoToolsEnv_def
            idleHandlerEnv_def Let_def)
    have "case stateBeforeStep restlessSdkEnv ?ctx 1 of
            Some r \<Rightarrow> stepBegins restlessSdkEnv ?ctx 1 r \<and> map atype (actions r) = [''goto'']
          | None \<Rightarrow> False"
      by code_simp
    then obtain r where s: "stateBeforeStep restlessSdkEnv ?ctx 1 = Some r"
      and b: "stepBegins restlessSdkEnv ?ctx 1 r" and a: "map atype (actions r) = [''goto'']"
      by (auto split: option.splits)
    have c: "checkPauseState (ctxOptions ?ctx) = Some ?check"
      by (simp add: prepareAgent_def restlessSdkEnv_def restlessEnv_def twoToolsEnv_def
            idleHandlerEnv_def Let_def resolveOptions_def pauseAtSecondStep_def)
    have k: "?check 1 = Some (JsError ''paused by the user'')" by simp
    have m: "\<exists>m. messageOrString (JsError ''paused by the user'') = Inr m" by simp
    from pause_rejection_returns_partial_result [OF p s b c k] m a show ?thesis by auto
  qed
  have escaped:
    "execute fillFormEnv (Options unprintablePause)
       = Some (Inl (cannotConvert))"
  proof -
    let ?io = "Options unprintablePause"
    let ?ctx = "projr (prepareAgent fillFormEnv ?io)"
    let ?check = "\<lambda>k :: nat. if k = 1 then Some Unprintable else None"
    have p: "prepareAgent fillFormEnv ?io = Inr ?ctx"
      by (simp add: prepareAgent_def fillFormEnv_def idleHandlerEnv_def Let_def)
    have "case stateBeforeStep fillFormEnv ?ctx 1 of
            Some r \<Rightarrow> stepBegins fillFormEnv ?ctx 1 r
          | None \<Rightarrow> False"
      by code_simp
    then obtain r where s: "stateBeforeStep fillFormEnv ?ctx 1 = Some r"
      and b: "stepBegins fillFormEnv ?ctx 1 r"
      by (auto split: option.splits)
    have c: "checkPauseState (ctxOptions ?ctx) = Some ?check"
      by (simp add: prepareAgent_def fillFormEnv_def idleHandlerEnv_def Let_def
            resolveOptions_def unprintablePause_def)
    have k: "?check 1 = Some Unprintable" by simp
    have o: "\<not> oauthMode fillFormEnv" by (simp add: fillFormEnv_def idleHandlerEnv_def)
    have m: "messageOrString Unprintable = Inl (cannotConvert)"
      by simp
    from pause_rejection_returns_partial_result [OF p s b c k] o m show ?thesis by blast
  qed
  from onOAuth onSdk escaped show ?thesis by blast
qed

end
